theory Spec2Isabelle
  imports Main "HOL-Library.Word"
begin

section \<open>User ids and room ids\<close>

text \<open>
  \<^verbatim>\<open>Client.touserid\<close> and \<^verbatim>\<open>Client.toroomid\<close> of \<^verbatim>\<open>client.py\<close>. Python integers are
  unbounded, so an id is an \<^typ>\<open>int\<close>. The \<^verbatim>\<open>if\<close>/\<^verbatim>\<open>elif\<close> chain keeps its order.
\<close>

definition touserid :: "int \<Rightarrow> int" where
  "touserid uid =
     (if uid \<ge> 1000000000 then uid - 1000000000
      else if uid \<ge> 400000000 then uid - 400000000
      else if uid \<ge> 300000000 then uid - 300000000
      else if uid \<ge> 200000000 then uid - 200000000
      else if uid \<ge> 100000000 then uid - 100000000
      else uid)"

definition toroomid :: "int \<Rightarrow> int" where
  "toroomid the_id = (if the_id < 100000000 then the_id + 100000000 else the_id)"

section \<open>Query ids under the lock\<close>

text \<open>
  \<^verbatim>\<open>Client.query_user\<close> takes its id inside \<^verbatim>\<open>with Client.userQueryLock:\<close>, from the
  class attribute \<^verbatim>\<open>Client.userQueryId\<close>, which starts at 20 and is shared by every
  caller of the process:
  \<^verbatim>\<open>
      query_id = Client.userQueryId
      Client.userQueryId += 1
  \<close>
  Callers are threads, named by numbers. A thread is outside the \<^verbatim>\<open>with\<close> block
  (\<open>Idle\<close>), has entered it (\<open>Acquired\<close>), has read its \<open>query_id\<close> (\<open>GotId\<close>), has
  loaded the attribute for the increment (\<open>Loaded\<close>), or has stored the incremented value
  and not yet left the block (\<open>Stored\<close>). The increment is a load and a store, two steps
  between which other threads may run. A thread that asks for the lock while another
  holds it waits: its step changes nothing. \<open>allocated\<close> records the ids in the order
  in which they were read.
\<close>

datatype pc = Idle | Acquired | GotId int | Loaded int int | Stored int

record alloc_state =
  alloc_userQueryId :: int
  alloc_userQueryLock :: "nat option"
  pcs :: "nat \<Rightarrow> pc"
  allocated :: "int list"

definition alloc_init :: alloc_state where
  "alloc_init =
     \<lparr>alloc_userQueryId = 20, alloc_userQueryLock = None, pcs = (\<lambda>_. Idle), allocated = []\<rparr>"

definition alloc_step :: "nat \<Rightarrow> alloc_state \<Rightarrow> alloc_state" where
  "alloc_step t s =
     (case pcs s t of
        Idle \<Rightarrow>
          (if alloc_userQueryLock s = None
           then s\<lparr>alloc_userQueryLock := Some t, pcs := (pcs s)(t := Acquired)\<rparr>
           else s)
      | Acquired \<Rightarrow>
          s\<lparr>pcs := (pcs s)(t := GotId (alloc_userQueryId s)),
            allocated := allocated s @ [alloc_userQueryId s]\<rparr>
      | GotId q \<Rightarrow> s\<lparr>pcs := (pcs s)(t := Loaded q (alloc_userQueryId s))\<rparr>
      | Loaded q v \<Rightarrow> s\<lparr>alloc_userQueryId := v + 1, pcs := (pcs s)(t := Stored q)\<rparr>
      | Stored q \<Rightarrow> s\<lparr>alloc_userQueryLock := None, pcs := (pcs s)(t := Idle)\<rparr>)"

text \<open>A schedule is the list of the threads that take the next step, in order.\<close>

fun alloc_run :: "nat list \<Rightarrow> alloc_state \<Rightarrow> alloc_state" where
  "alloc_run [] s = s"
| "alloc_run (t # ts) s = alloc_run ts (alloc_step t s)"

text \<open>The invariant of the steps, used in the proof only.\<close>

definition fresh_below :: "alloc_state \<Rightarrow> bool" where
  "fresh_below s = list_all (\<lambda>x. x < alloc_userQueryId s) (allocated s)"

definition pc_ok :: "alloc_state \<Rightarrow> pc \<Rightarrow> bool" where
  "pc_ok s p =
     (case p of
        Idle \<Rightarrow> True
      | Acquired \<Rightarrow> fresh_below s
      | GotId q \<Rightarrow> q = alloc_userQueryId s
      | Loaded q v \<Rightarrow> q = alloc_userQueryId s \<and> v = alloc_userQueryId s
      | Stored q \<Rightarrow> fresh_below s)"

definition alloc_inv :: "alloc_state \<Rightarrow> bool" where
  "alloc_inv s =
     ((\<forall>t. pcs s t \<noteq> Idle \<longrightarrow> alloc_userQueryLock s = Some t)
      \<and> sorted_wrt (<) (allocated s)
      \<and> list_all (\<lambda>x. x \<le> alloc_userQueryId s) (allocated s)
      \<and> (\<forall>t. pc_ok s (pcs s t))
      \<and> (alloc_userQueryLock s = None \<longrightarrow> fresh_below s))"

section \<open>Python values\<close>

text \<open>
  A Python \<^verbatim>\<open>str\<close> is a sequence of code points, and \<^verbatim>\<open>len\<close> counts code points; a
  \<^verbatim>\<open>bytes\<close> object is a sequence of bytes. \<open>ascii\<close> writes a \<^verbatim>\<open>str\<close> literal of the
  source.
\<close>

type_synonym ustr = "nat list"
type_synonym byte = "8 word"

definition ascii :: "string \<Rightarrow> ustr" where
  "ascii s = map of_char s"

text \<open>The exceptions that the modelled code raises or lets through.\<close>

datatype exn =
    AssertionError
  | AttributeError
  | IndexError
  | InvalidStateError
  | JSONDecodeError
  | KeyError
  | RecursionError
  | StructError
  | TypeError
  | UnicodeDecodeError
  | UnicodeEncodeError
  | URLError
  | ValueError
  | Exception ustr

text \<open>
  A function that changes an object and may raise: the object is returned in both cases,
  as it is when the exception leaves the function.
\<close>

datatype 's outcome = Returns 's | Raises exn 's

fun outcome_state :: "'s outcome \<Rightarrow> 's" where
  "outcome_state (Returns s) = s"
| "outcome_state (Raises e s) = s"

fun and_then :: "'s outcome \<Rightarrow> ('s \<Rightarrow> 's outcome) \<Rightarrow> 's outcome" where
  "and_then (Returns s) f = f s"
| "and_then (Raises e s) f = Raises e s"

text \<open>
  The values a payload holds: what \<^verbatim>\<open>json.loads\<close> builds, with \<^verbatim>\<open>None\<close> also for an
  absent payload and a \<^verbatim>\<open>str\<close> also for a payload kept as text. A \<^verbatim>\<open>dict\<close> is the list
  of its items in insertion order, with keys that are pairwise different. Keys are values
  too, because \<^verbatim>\<open>_process_list\<close> uses elements of its input as keys. Floating-point
  numbers are left out of the model.
\<close>

datatype jvalue =
    JNone
  | JBool bool
  | JInt int
  | JStr ustr
  | JList "jvalue list"
  | JDict "(jvalue \<times> jvalue) list"

type_synonym pydict = "(jvalue \<times> jvalue) list"

text \<open>\<^verbatim>\<open>True == 1\<close> and \<^verbatim>\<open>False == 0\<close>: a \<^verbatim>\<open>bool\<close> is an \<^verbatim>\<open>int\<close>.\<close>

fun py_num :: "jvalue \<Rightarrow> int option" where
  "py_num (JInt n) = Some n"
| "py_num (JBool b) = Some (if b then 1 else 0)"
| "py_num _ = None"

definition py_eq_int :: "jvalue \<Rightarrow> int \<Rightarrow> bool" where
  "py_eq_int v k = (py_num v = Some k)"

fun hashable :: "jvalue \<Rightarrow> bool" where
  "hashable (JList _) = False"
| "hashable (JDict _) = False"
| "hashable _ = True"

text \<open>Equality of two hashable values, as a \<^verbatim>\<open>dict\<close> compares its keys.\<close>

definition key_eq :: "jvalue \<Rightarrow> jvalue \<Rightarrow> bool" where
  "key_eq a b =
     (case (py_num a, py_num b) of
        (Some x, Some y) \<Rightarrow> x = y
      | (None, None) \<Rightarrow> a = b
      | _ \<Rightarrow> False)"

fun dict_get :: "pydict \<Rightarrow> jvalue \<Rightarrow> jvalue option" where
  "dict_get [] k = None"
| "dict_get ((k', v) # d) k = (if key_eq k' k then Some v else dict_get d k)"

text \<open>\<^verbatim>\<open>d[k] = v\<close>: an existing key keeps its place and its key object.\<close>

fun dict_set :: "pydict \<Rightarrow> jvalue \<Rightarrow> jvalue \<Rightarrow> pydict" where
  "dict_set [] k v = [(k, v)]"
| "dict_set ((k', v') # d) k v =
     (if key_eq k' k then (k', v) # d else (k', v') # dict_set d k v)"

text \<open>\<^verbatim>\<open>d.setdefault(k, v)\<close>: the value found or stored, and the dictionary.\<close>

definition dict_setdefault :: "pydict \<Rightarrow> jvalue \<Rightarrow> jvalue \<Rightarrow> jvalue \<times> pydict" where
  "dict_setdefault d k v =
     (case dict_get d k of Some x \<Rightarrow> (x, d) | None \<Rightarrow> (v, d @ [(k, v)]))"

definition is_substr :: "ustr \<Rightarrow> ustr \<Rightarrow> bool" where
  "is_substr s t = list_ex (\<lambda>i. take (length s) (drop i t) = s) [0..<Suc (length t)]"

text \<open>
  \<^verbatim>\<open>"name" in x\<close> with a \<^verbatim>\<open>str\<close> on the left: a key of a \<^verbatim>\<open>dict\<close>, an element of a
  \<^verbatim>\<open>list\<close>, a substring of a \<^verbatim>\<open>str\<close>; a \<^verbatim>\<open>TypeError\<close> on \<^verbatim>\<open>None\<close> and on numbers.
\<close>

fun str_in :: "ustr \<Rightarrow> jvalue \<Rightarrow> exn + bool" where
  "str_in s (JDict d) = Inr (dict_get d (JStr s) \<noteq> None)"
| "str_in s (JList xs) = Inr (JStr s \<in> set xs)"
| "str_in s (JStr t) = Inr (is_substr s t)"
| "str_in s _ = Inl TypeError"

text \<open>\<^verbatim>\<open>x["name"]\<close> with a \<^verbatim>\<open>str\<close> as the subscript.\<close>

fun getitem_str :: "jvalue \<Rightarrow> ustr \<Rightarrow> exn + jvalue" where
  "getitem_str (JDict d) s = (case dict_get d (JStr s) of Some v \<Rightarrow> Inr v | None \<Rightarrow> Inl KeyError)"
| "getitem_str _ s = Inl TypeError"

text \<open>
  \<^verbatim>\<open>for x in v\<close>: the elements of a \<^verbatim>\<open>list\<close>, the keys of a \<^verbatim>\<open>dict\<close>, the characters of
  a \<^verbatim>\<open>str\<close>; other values are not iterable.
\<close>

fun iterate :: "jvalue \<Rightarrow> exn + jvalue list" where
  "iterate (JList xs) = Inr xs"
| "iterate (JDict d) = Inr (map fst d)"
| "iterate (JStr s) = Inr (map (\<lambda>c. JStr [c]) s)"
| "iterate _ = Inl TypeError"

text \<open>An index of a \<^verbatim>\<open>list\<close> is an \<^verbatim>\<open>int\<close> (or a \<^verbatim>\<open>bool\<close>); a negative one counts from the end.\<close>

definition list_setitem :: "jvalue list \<Rightarrow> jvalue \<Rightarrow> jvalue \<Rightarrow> exn + jvalue list" where
  "list_setitem xs k v =
     (case py_num k of
        None \<Rightarrow> Inl TypeError
      | Some i \<Rightarrow>
          if 0 \<le> i \<and> i < int (length xs) then Inr (xs[nat i := v])
          else if i < 0 \<and> - int (length xs) \<le> i then Inr (xs[nat (int (length xs) + i) := v])
          else Inl IndexError)"

text \<open>\<^verbatim>\<open>xs[k:]\<close> for an integer \<open>k\<close>: a negative \<open>k\<close> counts from the end.\<close>

definition py_slice_from :: "'a list \<Rightarrow> int \<Rightarrow> 'a list" where
  "py_slice_from xs k =
     (if 0 \<le> k then drop (nat k) xs else drop (nat (int (length xs) + k)) xs)"

section \<open>The list decoder\<close>

text \<open>
  \<^verbatim>\<open>Client._process_list\<close>. The schema is walked first; an entry that is a \<^verbatim>\<open>dict\<close> gives
  one path \<open>[key, path2]\<close> for every element of every value, an entry that is a \<^verbatim>\<open>str\<close>
  gives the path \<open>[path1]\<close>, and any other entry gives none. Iterating over a schema, or
  over a value of a schema entry, that is not iterable raises.
\<close>

fun group_paths :: "pydict \<Rightarrow> exn + jvalue list list" where
  "group_paths [] = Inr []"
| "group_paths ((key, v) # d) =
     (case iterate v of
        Inl e \<Rightarrow> Inl e
      | Inr path2s \<Rightarrow>
          (case group_paths d of
             Inl e \<Rightarrow> Inl e
           | Inr rest \<Rightarrow> Inr (map (\<lambda>path2. [key, path2]) path2s @ rest)))"

fun entry_paths :: "jvalue \<Rightarrow> exn + jvalue list list" where
  "entry_paths (JDict d) = group_paths d"
| "entry_paths (JStr s) = Inr [[JStr s]]"
| "entry_paths _ = Inr []"

fun entries_paths :: "jvalue list \<Rightarrow> exn + jvalue list list" where
  "entries_paths [] = Inr []"
| "entries_paths (path1 # schema) =
     (case entry_paths path1 of
        Inl e \<Rightarrow> Inl e
      | Inr ps \<Rightarrow>
          (case entries_paths schema of
             Inl e \<Rightarrow> Inl e
           | Inr rest \<Rightarrow> Inr (ps @ rest)))"

definition schema_map_of :: "jvalue \<Rightarrow> exn + jvalue list list" where
  "schema_map_of schema =
     (case iterate schema of Inl e \<Rightarrow> Inl e | Inr entries \<Rightarrow> entries_paths entries)"

text \<open>
  One item of a row. A path of length 1 is \<^verbatim>\<open>msg[path[0]] = item\<close>; a longer one is
  \<^verbatim>\<open>msg.setdefault(path[0], {})[path[1]] = item\<close>, which assigns into whatever
  \<open>msg\<close> already holds under \<open>path[0]\<close>: a \<^verbatim>\<open>dict\<close>, a \<^verbatim>\<open>list\<close> (by index), or a value
  that takes no assignment.
\<close>

fun set_path :: "pydict \<Rightarrow> jvalue list \<Rightarrow> jvalue \<Rightarrow> exn + pydict" where
  "set_path msg [] item = Inl IndexError"
| "set_path msg [path0] item = Inr (dict_set msg path0 item)"
| "set_path msg (path0 # path1 # _) item =
     (case fst (dict_setdefault msg path0 (JDict [])) of
        JDict d \<Rightarrow>
          (if hashable path1 then Inr (dict_set msg path0 (JDict (dict_set d path1 item)))
           else Inl TypeError)
      | JList xs \<Rightarrow>
          (case list_setitem xs path1 item of
             Inl e \<Rightarrow> Inl e
           | Inr xs' \<Rightarrow> Inr (dict_set msg path0 (JList xs')))
      | _ \<Rightarrow> Inl TypeError)"

text \<open>
  \<^verbatim>\<open>for i, item in enumerate(record): path = schema_map[i]\<close>: the row and the schema map
  in lockstep; a row longer than the schema map raises \<^verbatim>\<open>IndexError\<close>.
\<close>

fun build_msg :: "jvalue list list \<Rightarrow> jvalue list \<Rightarrow> pydict \<Rightarrow> exn + pydict" where
  "build_msg schema_map [] msg = Inr msg"
| "build_msg [] (item # items) msg = Inl IndexError"
| "build_msg (path # schema_map) (item # items) msg =
     (case set_path msg path item of
        Inl e \<Rightarrow> Inl e
      | Inr msg' \<Rightarrow> build_msg schema_map items msg')"

fun decode_rows :: "jvalue list list \<Rightarrow> jvalue list \<Rightarrow> exn + jvalue list" where
  "decode_rows schema_map [] = Inr []"
| "decode_rows schema_map (JList items # records) =
     (case build_msg schema_map items [] of
        Inl e \<Rightarrow> Inl e
      | Inr msg \<Rightarrow>
          (case decode_rows schema_map records of
             Inl e \<Rightarrow> Inl e
           | Inr result \<Rightarrow> Inr (JDict msg # result)))"
| "decode_rows schema_map (JDict d # records) =
     (case decode_rows schema_map records of
        Inl e \<Rightarrow> Inl e
      | Inr result \<Rightarrow> Inr (JDict d # result))"
| "decode_rows schema_map (_ # records) = decode_rows schema_map records"

fun process_list :: "jvalue \<Rightarrow> exn + jvalue" where
  "process_list (JList (schema # records)) =
     (case schema_map_of schema of
        Inl e \<Rightarrow> Inl e
      | Inr schema_map \<Rightarrow>
          (case decode_rows schema_map records of
             Inl e \<Rightarrow> Inl e
           | Inr result \<Rightarrow> Inr (JList result)))"
| "process_list data = Inr data"

text \<open>
  What the decoder is to achieve, in the words of its description. The value that a
  mapping holds at a slot: directly under the field name, or under the subfield name
  inside the mapping held under the group key.
\<close>

fun path_get :: "pydict \<Rightarrow> jvalue list \<Rightarrow> jvalue option" where
  "path_get msg [] = None"
| "path_get msg [path0] = dict_get msg path0"
| "path_get msg (path0 # path1 # _) =
     (case dict_get msg path0 of Some (JDict d) \<Rightarrow> dict_get d path1 | _ \<Rightarrow> None)"

text \<open>
  A schema map whose slots are a field name, or a group name and a subfield name, all
  of them strings; no slot occurs twice, and no field is named like a group.
\<close>

fun named_slot :: "jvalue list \<Rightarrow> bool" where
  "named_slot [JStr f] = True"
| "named_slot [JStr g, JStr s] = True"
| "named_slot _ = False"

definition apart :: "jvalue list \<Rightarrow> jvalue list \<Rightarrow> bool" where
  "apart p q = (length p = length q \<or> hd p \<noteq> hd q)"

definition wf_schema_map :: "jvalue list list \<Rightarrow> bool" where
  "wf_schema_map sm =
     (list_all named_slot sm \<and> distinct sm \<and> list_all (\<lambda>p. list_all (apart p) sm) sm)"

fun is_row :: "jvalue \<Rightarrow> bool" where
  "is_row (JList _) = True"
| "is_row (JDict _) = True"
| "is_row _ = False"

fun fits :: "jvalue list list \<Rightarrow> jvalue \<Rightarrow> bool" where
  "fits sm (JList items) = (length items \<le> length sm)"
| "fits sm _ = True"

text \<open>
  A decoded row: a mapping is itself; a sequence is a mapping that holds each item at
  the slot of its position.
\<close>

fun row_decoded :: "jvalue list list \<Rightarrow> jvalue \<Rightarrow> jvalue \<Rightarrow> bool" where
  "row_decoded sm (JDict d) out = (out = JDict d)"
| "row_decoded sm (JList items) (JDict msg) =
     list_all2 (\<lambda>path item. path_get msg path = Some item) (take (length items) sm) items"
| "row_decoded sm _ _ = False"

text \<open>Used in the proofs: a group key holds a mapping, or nothing yet.\<close>

fun holds_dict :: "jvalue option \<Rightarrow> bool" where
  "holds_dict None = True"
| "holds_dict (Some (JDict d)) = True"
| "holds_dict _ = False"

definition groups_ok :: "pydict \<Rightarrow> jvalue list list \<Rightarrow> bool" where
  "groups_ok msg sm = (\<forall>g s. [JStr g, JStr s] \<in> set sm \<longrightarrow> holds_dict (dict_get msg (JStr g)))"

section \<open>The wire format\<close>

text \<open>
  \<^verbatim>\<open>MAGIC\<close> is written by \<^verbatim>\<open>gen_constants.py\<close> into the head of \<^verbatim>\<open>constants.py\<close>.
\<close>

definition MAGIC :: int where
  "MAGIC = - 2027771214"

text \<open>
  \<^verbatim>\<open>struct\<close>'s format \<^verbatim>\<open>>i\<close>: four bytes, big-endian, two's complement. Packing raises
  \<^verbatim>\<open>struct.error\<close> on a number that does not fit.
\<close>

definition unpack_i32 :: "byte list \<Rightarrow> int" where
  "unpack_i32 bs =
     (let u = foldl (\<lambda>a b. a * 256 + uint b) 0 bs
      in if u < 2147483648 then u else u - 4294967296)"

definition i32_bytes :: "int \<Rightarrow> byte list" where
  "i32_bytes v =
     [word_of_int (v div 16777216), word_of_int (v div 65536),
      word_of_int (v div 256), word_of_int v]"

definition pack_i32 :: "int \<Rightarrow> exn + byte list" where
  "pack_i32 v =
     (if - 2147483648 \<le> v \<and> v < 2147483648 then Inr (i32_bytes v) else Inl StructError)"

fun pack_i32s :: "int list \<Rightarrow> exn + byte list" where
  "pack_i32s [] = Inr []"
| "pack_i32s (v # vs) =
     (case pack_i32 v of
        Inl e \<Rightarrow> Inl e
      | Inr bs \<Rightarrow> (case pack_i32s vs of Inl e \<Rightarrow> Inl e | Inr rest \<Rightarrow> Inr (bs @ rest)))"

text \<open>The \<open>i\<close>-th number of a packed header.\<close>

definition header_field :: "byte list \<Rightarrow> nat \<Rightarrow> int" where
  "header_field buf i = unpack_i32 (take 4 (drop (4 * i) buf))"

text \<open>
  \<^verbatim>\<open>str.encode()\<close>: UTF-8, strict; a surrogate code point raises. (A number from
  \<open>0x110000\<close> on is no code point of a \<^verbatim>\<open>str\<close>.)
\<close>

definition utf8_encode_char :: "nat \<Rightarrow> exn + byte list" where
  "utf8_encode_char c =
     (if c < 0x80 then Inr [of_nat c]
      else if c < 0x800 then Inr [of_nat (0xC0 + c div 64), of_nat (0x80 + c mod 64)]
      else if c < 0x10000 then
        (if 0xD800 \<le> c \<and> c \<le> 0xDFFF then Inl UnicodeEncodeError
         else Inr [of_nat (0xE0 + c div 4096), of_nat (0x80 + c div 64 mod 64),
                   of_nat (0x80 + c mod 64)])
      else if c < 0x110000 then
        Inr [of_nat (0xF0 + c div 262144), of_nat (0x80 + c div 4096 mod 64),
             of_nat (0x80 + c div 64 mod 64), of_nat (0x80 + c mod 64)]
      else Inl UnicodeEncodeError)"

fun utf8_encode :: "ustr \<Rightarrow> exn + byte list" where
  "utf8_encode [] = Inr []"
| "utf8_encode (c # cs) =
     (case utf8_encode_char c of
        Inl e \<Rightarrow> Inl e
      | Inr bs \<Rightarrow> (case utf8_encode cs of Inl e \<Rightarrow> Inl e | Inr rest \<Rightarrow> Inr (bs @ rest)))"

text \<open>
  \<^verbatim>\<open>bytes.decode('utf-8')\<close>: strict; \<open>None\<close> stands for \<^verbatim>\<open>UnicodeDecodeError\<close>, raised
  on a byte that starts no sequence, a sequence that is cut short, an overlong form, a
  surrogate, and a value above \<open>0x10FFFF\<close>.
\<close>

definition cont :: "byte \<Rightarrow> bool" where
  "cont b = (0x80 \<le> unat b \<and> unat b \<le> 0xBF)"

definition low6 :: "byte \<Rightarrow> nat" where
  "low6 b = unat b mod 64"

fun utf8_decode :: "byte list \<Rightarrow> ustr option" where
  "utf8_decode [] = Some []"
| "utf8_decode (b # bs) =
     (let n = unat b in
      if n < 0x80 then map_option ((#) n) (utf8_decode bs)
      else if 0xC2 \<le> n \<and> n \<le> 0xDF then
        (case bs of
           b1 # r \<Rightarrow>
             if cont b1
             then map_option ((#) ((n - 0xC0) * 64 + low6 b1)) (utf8_decode r)
             else None
         | _ \<Rightarrow> None)
      else if 0xE0 \<le> n \<and> n \<le> 0xEF then
        (case bs of
           b1 # b2 # r \<Rightarrow>
             if cont b1 \<and> cont b2
                \<and> (if n = 0xE0 then 0xA0 \<le> unat b1 else True)
                \<and> (if n = 0xED then unat b1 \<le> 0x9F else True)
             then map_option ((#) ((n - 0xE0) * 4096 + low6 b1 * 64 + low6 b2)) (utf8_decode r)
             else None
         | _ \<Rightarrow> None)
      else if 0xF0 \<le> n \<and> n \<le> 0xF4 then
        (case bs of
           b1 # b2 # b3 # r \<Rightarrow>
             if cont b1 \<and> cont b2 \<and> cont b3
                \<and> (if n = 0xF0 then 0x90 \<le> unat b1 else True)
                \<and> (if n = 0xF4 then unat b1 \<le> 0x8F else True)
             then map_option
                    ((#) ((n - 0xF0) * 262144 + low6 b1 * 4096 + low6 b2 * 64 + low6 b3))
                    (utf8_decode r)
             else None
         | _ \<Rightarrow> None)
      else None)"

section \<open>Packets\<close>

text \<open>
  \<^verbatim>\<open>Packet\<close> is declared in \<^verbatim>\<open>packet.py\<close>, which is not among the sources. Its
  fields are those that \<^verbatim>\<open>client.py\<close> reads, in the order in which \<^verbatim>\<open>data_received\<close>
  passes the numbers of the header to the constructor.
\<close>

record packet =
  fctype :: int
  nfrom :: int
  nto :: int
  narg1 :: int
  narg2 :: int
  smessage :: jvalue

section \<open>The frame decoder\<close>

text \<open>
  \<^verbatim>\<open>MFCProtocol.data_received\<close>. One turn of its loop, up to the call of the client: the
  buffer holds too little (\<^verbatim>\<open>break\<close>), an exception is raised, or a packet is built and
  the buffer is cut to \<^verbatim>\<open>self.buffer[packet_size+spayload:]\<close>.

  The \<^verbatim>\<open>assert\<close> on the magic is taken as enabled, as it is unless Python runs with
  \<^verbatim>\<open>-O\<close>. \<^verbatim>\<open>json.loads\<close> belongs to Python's library. It is the parameter \<open>loads\<close>: the value
  parsed, or the exception raised, of which only \<^verbatim>\<open>JSONDecodeError\<close> is caught.
\<close>

datatype decoded = Incomplete | Failed exn | Frame packet "byte list"

definition decode_frame :: "(ustr \<Rightarrow> exn + jvalue) \<Rightarrow> byte list \<Rightarrow> decoded" where
  "decode_frame loads buffer =
     (let packet_size = 28 in
      if length buffer < packet_size then Incomplete
      else if header_field buffer 0 \<noteq> MAGIC then Failed AssertionError
      else
        (let spayload = header_field buffer 6;
             unpacked = \<lambda>smessage.
               \<lparr>fctype = header_field buffer 1, nfrom = header_field buffer 2,
                nto = header_field buffer 3, narg1 = header_field buffer 4,
                narg2 = header_field buffer 5, smessage = smessage\<rparr>;
             rest = py_slice_from buffer (int packet_size + spayload)
         in if spayload > 0 then
              (if int (length buffer) < int packet_size + spayload then Incomplete
               else
                 (case utf8_decode (take (nat spayload) (drop packet_size buffer)) of
                    None \<Rightarrow> Failed UnicodeDecodeError
                  | Some text \<Rightarrow>
                      (case loads text of
                         Inr v \<Rightarrow> Frame (unpacked v) rest
                       | Inl JSONDecodeError \<Rightarrow> Frame (unpacked (JStr text)) rest
                       | Inl e \<Rightarrow> Failed e)))
            else Frame (unpacked JNone) rest))"

text \<open>
  The loop. \<open>handle\<close> is \<^verbatim>\<open>self.client.handle_packet_received\<close>; the client is the
  object given to the protocol when it is built. Any exception, of the decoding or of
  the client, is caught, stops the event loop (\<^verbatim>\<open>self.loop.stop()\<close>) and leaves the loop:
  the result holds the client, the buffer and whether the event loop was stopped. The
  loop need not end, so the result is optional.
\<close>

partial_function (option) data_received_loop ::
  "(ustr \<Rightarrow> exn + jvalue) \<Rightarrow> ('c \<Rightarrow> packet \<Rightarrow> 'c outcome) \<Rightarrow> 'c \<Rightarrow> byte list
     \<Rightarrow> ('c \<times> byte list \<times> bool) option" where
  "data_received_loop loads handle client buffer =
     (case decode_frame loads buffer of
        Incomplete \<Rightarrow> Some (client, buffer, False)
      | Failed e \<Rightarrow> Some (client, buffer, True)
      | Frame p buffer' \<Rightarrow>
          (case handle client p of
             Returns client' \<Rightarrow> data_received_loop loads handle client' buffer'
           | Raises e client' \<Rightarrow> Some (client', buffer', True)))"

definition data_received ::
  "(ustr \<Rightarrow> exn + jvalue) \<Rightarrow> ('c \<Rightarrow> packet \<Rightarrow> 'c outcome) \<Rightarrow> 'c \<Rightarrow> byte list \<Rightarrow> byte list
     \<Rightarrow> ('c \<times> byte list \<times> bool) option" where
  "data_received loads handle client buffer data =
     data_received_loop loads handle client (buffer @ data)"

text \<open>
  Data arrives in chunks, one call of \<^verbatim>\<open>data_received\<close> for each. Once the event loop is
  stopped, it delivers nothing more.
\<close>

fun feed ::
  "(ustr \<Rightarrow> exn + jvalue) \<Rightarrow> ('c \<Rightarrow> packet \<Rightarrow> 'c outcome) \<Rightarrow> 'c \<Rightarrow> byte list
     \<Rightarrow> byte list list \<Rightarrow> ('c \<times> byte list \<times> bool) option" where
  "feed loads handle client buffer [] = Some (client, buffer, False)"
| "feed loads handle client buffer (data # chunks) =
     (case data_received loads handle client buffer data of
        None \<Rightarrow> None
      | Some (client', buffer', stopped) \<Rightarrow>
          if stopped then Some (client', buffer', True)
          else feed loads handle client' buffer' chunks)"

text \<open>A client that only records the packets it is given.\<close>

definition record_packet :: "packet list \<Rightarrow> packet \<Rightarrow> packet list outcome" where
  "record_packet log p = Returns (log @ [p])"

subsection \<open>Frames, as the description of the wire format has them\<close>

text \<open>
  Seven big-endian 32-bit signed integers, \<open>magic, kind, from, to, arg1, arg2,
  payloadLength\<close>, followed by exactly \<open>payloadLength\<close> bytes. A valid frame carries
  numbers that fit, the length of its payload, and a payload that is UTF-8 text on which
  the parser returns or reports a syntax error. Its message holds the parsed value, the
  text when the parser reports a syntax error, and nothing when the payload is empty.
\<close>

record frame =
  f_kind :: int
  f_from :: int
  f_to :: int
  f_arg1 :: int
  f_arg2 :: int
  f_payload :: "byte list"

definition frame_bytes :: "frame \<Rightarrow> byte list" where
  "frame_bytes f =
     i32_bytes MAGIC @ i32_bytes (f_kind f) @ i32_bytes (f_from f) @ i32_bytes (f_to f)
     @ i32_bytes (f_arg1 f) @ i32_bytes (f_arg2 f) @ i32_bytes (int (length (f_payload f)))
     @ f_payload f"

definition header_bytes :: "frame \<Rightarrow> byte list" where
  "header_bytes f =
     i32_bytes MAGIC @ i32_bytes (f_kind f) @ i32_bytes (f_from f) @ i32_bytes (f_to f)
     @ i32_bytes (f_arg1 f) @ i32_bytes (f_arg2 f) @ i32_bytes (int (length (f_payload f)))"

definition is_i32 :: "int \<Rightarrow> bool" where
  "is_i32 v = (- 2147483648 \<le> v \<and> v < 2147483648)"

definition payload_value :: "(ustr \<Rightarrow> exn + jvalue) \<Rightarrow> byte list \<Rightarrow> jvalue option" where
  "payload_value loads bs =
     (if bs = [] then Some JNone
      else
        (case utf8_decode bs of
           None \<Rightarrow> None
         | Some text \<Rightarrow>
             (case loads text of
                Inr v \<Rightarrow> Some v
              | Inl JSONDecodeError \<Rightarrow> Some (JStr text)
              | Inl e \<Rightarrow> None)))"

definition frame_fits :: "frame \<Rightarrow> bool" where
  "frame_fits f =
     (is_i32 (f_kind f) \<and> is_i32 (f_from f) \<and> is_i32 (f_to f) \<and> is_i32 (f_arg1 f)
      \<and> is_i32 (f_arg2 f) \<and> is_i32 (int (length (f_payload f))))"

definition valid_frame :: "(ustr \<Rightarrow> exn + jvalue) \<Rightarrow> frame \<Rightarrow> bool" where
  "valid_frame loads f = (frame_fits f \<and> payload_value loads (f_payload f) \<noteq> None)"

definition message_of :: "(ustr \<Rightarrow> exn + jvalue) \<Rightarrow> frame \<Rightarrow> packet" where
  "message_of loads f =
     \<lparr>fctype = f_kind f, nfrom = f_from f, nto = f_to f, narg1 = f_arg1 f,
      narg2 = f_arg2 f, smessage = the (payload_value loads (f_payload f))\<rparr>"

section \<open>The client\<close>

text \<open>
  The fields of \<^verbatim>\<open>Client\<close> that the modelled methods read or write. \<open>username\<close> holds
  what the login response carries, which is any payload. \<open>keepalive\<close> tells whether a
  keepalive timer is pending. \<open>transport\<close> is absent before \<^verbatim>\<open>connect\<close>, and otherwise
  holds the chunks written so far. \<open>loop_stopped\<close> tells whether \<^verbatim>\<open>loop.stop()\<close> was
  called on the event loop, \<open>timers\<close> holds the calls of \<^verbatim>\<open>loop.call_later\<close> and, with
  the delay 0, of \<^verbatim>\<open>loop.call_soon\<close>.
  \<open>userQueryId\<close> is the class attribute; one client is modelled.

  \<^verbatim>\<open>asyncio.Future\<close> objects are named by the query id they were made for; each is
  pending or holds a result. A listener is a handler registered for a message kind; the
  only handlers that \<^verbatim>\<open>client.py\<close> registers are the closures of \<^verbatim>\<open>query_user\<close>, one for
  each query id. \<open>emitted\<close> records the calls of \<^verbatim>\<open>emit\<close>.

  The entity registry (\<^verbatim>\<open>model.py\<close>) is not among the sources. \<open>registry\<close> records the
  calls made to it; what a call returns or raises is given by the environment.
\<close>

datatype future = Pending | Result jvalue

datatype listener = QueryHandler int

datatype timer = PingLoop | Reconnect | EmitConnected

datatype reg_call =
    GetModel jvalue "bool option"
  | Merge jvalue jvalue
  | MergeTags jvalue jvalue
  | ResetAll

record client =
  username :: jvalue
  password :: ustr
  session_id :: int
  uid :: "int option"
  keepalive :: bool
  completed_models :: bool
  completed_tags :: bool
  manual_disconnect :: bool
  logged_in :: bool
  stream_cxid :: jvalue
  stream_password :: jvalue
  stream_vidctx :: jvalue
  transport :: "byte list list option"
  loop_stopped :: bool
  timers :: "(nat \<times> timer) list"
  userQueryId :: int
  futures :: "(int \<times> future) list"
  listeners :: "(int \<times> listener) list"
  emitted :: "(int \<times> packet option) list"
  registry :: "reg_call list"

text \<open>\<^verbatim>\<open>Client.__init__\<close>, with the class attribute at its first value.\<close>

definition new_client :: "jvalue \<Rightarrow> ustr \<Rightarrow> client" where
  "new_client user pass =
     \<lparr>username = user, password = pass, session_id = 0, uid = None, keepalive = False,
      completed_models = False, completed_tags = False, manual_disconnect = False,
      logged_in = False, stream_cxid = JNone, stream_password = JNone,
      stream_vidctx = JNone, transport = None, loop_stopped = False, timers = [],
      userQueryId = 20, futures = [], listeners = [], emitted = [], registry = []\<rparr>"

text \<open>
  The environment: the constants of \<^verbatim>\<open>constants.py\<close>, which \<^verbatim>\<open>gen_constants.py\<close> reads
  from a remote script, and the collaborators that are not among the sources.
  \<open>FCTYPE_members\<close> are the values of the members of \<^verbatim>\<open>FCTYPE\<close>; \<open>json_loads\<close> is
  \<^verbatim>\<open>json.loads\<close>; \<open>py_int\<close> is \<^verbatim>\<open>int(key)\<close>; \<open>py_str\<close> is the text that \<^verbatim>\<open>"{}".format\<close>
  prints for a value; \<open>registry_call\<close> gives, for the calls made so far and a new call,
  the exception it raises or whether it returns a model;
  \<open>aboutmodel_uid\<close> is \<^verbatim>\<open>packet.aboutmodel.uid\<close>; \<open>resolve_extdata\<close> is the HTTP fetch of
  \<^verbatim>\<open>_handle_extdata\<close> with the handling of the packet it builds.
\<close>

record env =
  json_loads :: "ustr \<Rightarrow> exn + jvalue"
  py_int :: "jvalue \<Rightarrow> exn + int"
  py_str :: "jvalue \<Rightarrow> ustr"
  registry_call :: "reg_call list \<Rightarrow> reg_call \<Rightarrow> exn + bool"
  aboutmodel_uid :: "reg_call list \<Rightarrow> packet \<Rightarrow> exn + jvalue"
  resolve_extdata :: "client \<Rightarrow> jvalue \<Rightarrow> client outcome"
  FCTYPE_members :: "int list"
  FCTYPE_NULL :: int
  FCTYPE_LOGIN :: int
  FCTYPE_DETAILS :: int
  FCTYPE_ROOMHELPER :: int
  FCTYPE_SESSIONSTATE :: int
  FCTYPE_ADDFRIEND :: int
  FCTYPE_ADDIGNORE :: int
  FCTYPE_CMESG :: int
  FCTYPE_PMESG :: int
  FCTYPE_TXPROFILE :: int
  FCTYPE_USERNAMELOOKUP :: int
  FCTYPE_MYCAMSTATE :: int
  FCTYPE_MYWEBCAM :: int
  FCTYPE_TOKENINC :: int
  FCTYPE_JOINCHAN :: int
  FCTYPE_TAGS :: int
  FCTYPE_BOOKMARKS :: int
  FCTYPE_METRICS :: int
  FCTYPE_EXTDATA :: int
  FCTYPE_MANAGELIST :: int
  FCTYPE_TKX :: int
  FCCHAN_PART :: int
  FCWOPT_REDIS_JSON :: int
  FCL_ROOMMATES :: int
  FCL_CAMS :: int
  FCL_FRIENDS :: int
  FCL_IGNORES :: int
  FCL_TAGS :: int
  FCLEVEL_MODEL :: int

text \<open>The members of \<^verbatim>\<open>FCTYPE\<close> that \<^verbatim>\<open>gen_constants.py\<close> adds itself.\<close>

definition FCTYPE_CLIENT_TAGSLOADED :: int where "FCTYPE_CLIENT_TAGSLOADED = - 6"
definition FCTYPE_CLIENT_DISCONNECTED :: int where "FCTYPE_CLIENT_DISCONNECTED = - 5"
definition FCTYPE_CLIENT_MODELSLOADED :: int where "FCTYPE_CLIENT_MODELSLOADED = - 4"
definition FCTYPE_CLIENT_CONNECTED :: int where "FCTYPE_CLIENT_CONNECTED = - 3"
definition FCTYPE_ANY :: int where "FCTYPE_ANY = - 2"
definition FCTYPE_UNKNOWN :: int where "FCTYPE_UNKNOWN = - 1"

subsection \<open>Sending\<close>

text \<open>
  \<^verbatim>\<open>Client.tx_cmd\<close>. The bytes are
  \<^verbatim>\<open>struct.pack(">iiiiiii{}s".format(len(smsg)), MAGIC, fctype, self.session_id, nto,
  narg1, narg2, len(smsg), smsg.encode())\<close>: the length is the number of code points of
  the text, and the format \<^verbatim>\<open>Ns\<close> cuts the encoded text to \<open>N\<close> bytes. \<^verbatim>\<open>len\<close> raises on a
  number, \<^verbatim>\<open>encode\<close> is no attribute of a \<^verbatim>\<open>list\<close> or a \<^verbatim>\<open>dict\<close>. A kind that is no
  member of \<^verbatim>\<open>FCTYPE\<close> is one outside the members' values.
\<close>

definition tx_bytes ::
  "int \<Rightarrow> int \<Rightarrow> int \<Rightarrow> int \<Rightarrow> int \<Rightarrow> jvalue \<Rightarrow> exn + byte list" where
  "tx_bytes kind session nto' narg1' narg2' smsg =
     (case (if smsg = JNone then JStr [] else smsg) of
        JStr s \<Rightarrow>
          (case utf8_encode s of
             Inl e \<Rightarrow> Inl e
           | Inr bs \<Rightarrow>
               (case pack_i32s [MAGIC, kind, session, nto', narg1', narg2', int (length s)] of
                  Inl e \<Rightarrow> Inl e
                | Inr header \<Rightarrow> Inr (header @ take (length s) bs)))
      | JList xs \<Rightarrow> Inl AttributeError
      | JDict d \<Rightarrow> Inl AttributeError
      | _ \<Rightarrow> Inl TypeError)"

definition tx_cmd ::
  "env \<Rightarrow> int \<Rightarrow> int \<Rightarrow> int \<Rightarrow> int \<Rightarrow> jvalue \<Rightarrow> client \<Rightarrow> client outcome" where
  "tx_cmd E kind nto' narg1' narg2' smsg c =
     (if kind \<notin> set (FCTYPE_members E)
      then Raises (Exception (ascii ''Please provide a valid FCTYPE'')) c
      else
        (case tx_bytes kind (session_id c) nto' narg1' narg2' smsg of
           Inl e \<Rightarrow> Raises e c
         | Inr data \<Rightarrow>
             (case transport c of
                None \<Rightarrow> Raises AttributeError c
              | Some written \<Rightarrow> Returns (c\<lparr>transport := Some (written @ [data])\<rparr>))))"

subsection \<open>Events\<close>

text \<open>
  The handler that \<^verbatim>\<open>query_user\<close> registers: on a packet whose \<open>narg1\<close> is its query id,
  it removes itself and sets the result of its future, the payload when that is a
  \<^verbatim>\<open>dict\<close> and \<^verbatim>\<open>None\<close> otherwise. Setting the result of a future that is not pending
  raises. It takes one argument, so a call without a packet raises.
\<close>

fun set_result :: "int \<Rightarrow> jvalue \<Rightarrow> (int \<times> future) list \<Rightarrow> (int \<times> future) list option" where
  "set_result q v [] = None"
| "set_result q v ((q', fu) # fs) =
     (if q' = q then (if fu = Pending then Some ((q', Result v) # fs) else None)
      else map_option ((#) (q', fu)) (set_result q v fs))"

fun run_listener :: "env \<Rightarrow> listener \<Rightarrow> packet option \<Rightarrow> client \<Rightarrow> client outcome" where
  "run_listener E (QueryHandler query_id) None c = Raises TypeError c"
| "run_listener E (QueryHandler query_id) (Some p) c =
     (if narg1 p = query_id then
        (let c1 = c\<lparr>listeners :=
                    remove1 (FCTYPE_USERNAMELOOKUP E, QueryHandler query_id) (listeners c)\<rparr>;
             v = (case smessage p of JDict d \<Rightarrow> JDict d | _ \<Rightarrow> JNone)
         in case set_result query_id v (futures c1) of
              None \<Rightarrow> Raises InvalidStateError c1
            | Some fs \<Rightarrow> Returns (c1\<lparr>futures := fs\<rparr>))
      else Returns c)"

fun run_listeners :: "env \<Rightarrow> listener list \<Rightarrow> packet option \<Rightarrow> client \<Rightarrow> client outcome" where
  "run_listeners E [] arg c = Returns c"
| "run_listeners E (l # ls) arg c = and_then (run_listener E l arg c) (run_listeners E ls arg)"

text \<open>
  Modelled from the spec: \<^verbatim>\<open>EventEmitter\<close> (\<^verbatim>\<open>event_emitter.py\<close>) is not among the
  sources. \<^verbatim>\<open>on\<close> subscribes a handler to a kind, and \<^verbatim>\<open>emit\<close> delivers to the handlers
  registered for exactly that kind, in subscription order. Handlers that callers
  register are outside the model.
\<close>

definition emit :: "env \<Rightarrow> int \<Rightarrow> packet option \<Rightarrow> client \<Rightarrow> client outcome" where
  "emit E kind arg c =
     (let c1 = c\<lparr>emitted := emitted c @ [(kind, arg)]\<rparr>
      in run_listeners E (map snd (filter (\<lambda>kl. fst kl = kind) (listeners c1))) arg c1)"

definition on :: "int \<Rightarrow> listener \<Rightarrow> client \<Rightarrow> client" where
  "on kind handler c = c\<lparr>listeners := listeners c @ [(kind, handler)]\<rparr>"

subsection \<open>Queries\<close>

text \<open>
  \<^verbatim>\<open>Client.query_user\<close>: a future, the next query id, a handler, and the command. The
  handler is registered before the argument is looked at. The future returned is the
  one named by the value of \<open>userQueryId\<close> before the call.
\<close>

definition query_user :: "env \<Rightarrow> jvalue \<Rightarrow> client \<Rightarrow> client outcome" where
  "query_user E user c =
     (let query_id = userQueryId c;
          c1 = c\<lparr>futures := futures c @ [(query_id, Pending)], userQueryId := query_id + 1\<rparr>;
          c2 = on (FCTYPE_USERNAMELOOKUP E) (QueryHandler query_id) c1
      in case user of
           JInt n \<Rightarrow> tx_cmd E (FCTYPE_USERNAMELOOKUP E) 0 query_id n (JStr []) c2
         | JBool b \<Rightarrow>
             tx_cmd E (FCTYPE_USERNAMELOOKUP E) 0 query_id (if b then 1 else 0) (JStr []) c2
         | JStr s \<Rightarrow> tx_cmd E (FCTYPE_USERNAMELOOKUP E) 0 query_id 0 (JStr s) c2
         | _ \<Rightarrow> Raises (Exception (ascii ''Invalid Argument'')) c2)"

subsection \<open>Calls to the entity registry\<close>

definition call_registry :: "env \<Rightarrow> reg_call \<Rightarrow> client \<Rightarrow> (exn + bool) \<times> client" where
  "call_registry E call c =
     (registry_call E (registry c) call, c\<lparr>registry := registry c @ [call]\<rparr>)"

text \<open>
  \<^verbatim>\<open>m = Model.get_model(uid, create)\<close>, then \<^verbatim>\<open>m.merge(payload)\<close> when \<open>m\<close> is not
  \<^verbatim>\<open>None\<close>; likewise with \<^verbatim>\<open>merge_tags\<close>.
\<close>

definition get_and_merge ::
  "env \<Rightarrow> jvalue \<Rightarrow> bool option \<Rightarrow> reg_call \<Rightarrow> client \<Rightarrow> client outcome" where
  "get_and_merge E user_id create merge_call c =
     (case call_registry E (GetModel user_id create) c of
        (Inl e, c1) \<Rightarrow> Raises e c1
      | (Inr False, c1) \<Rightarrow> Returns c1
      | (Inr True, c1) \<Rightarrow>
          (case call_registry E merge_call c1 of
             (Inl e, c2) \<Rightarrow> Raises e c2
           | (Inr _, c2) \<Rightarrow> Returns c2))"

subsection \<open>Merging a packet into the client\<close>

text \<open>The branches of \<^verbatim>\<open>Client._process_packet\<close>, one definition for each.\<close>

definition process_login :: "packet \<Rightarrow> client \<Rightarrow> client outcome" where
  "process_login p c =
     (if narg1 p \<noteq> 0 then Raises (Exception (ascii ''Login failed'')) c
      else Returns (c\<lparr>session_id := nto p, uid := Some (narg2 p), username := smessage p\<rparr>))"

text \<open>
  The branch of \<^verbatim>\<open>DETAILS\<close> and the kinds listed with it. \<^verbatim>\<open>setdefault\<close> changes the
  payload of the packet, so the packet is returned too.
\<close>

definition process_details :: "env \<Rightarrow> packet \<Rightarrow> client \<Rightarrow> (client \<times> packet) outcome" where
  "process_details E p c =
     (if (fctype p = FCTYPE_DETAILS E \<and> nfrom p = FCTYPE_TOKENINC E)
         \<or> (fctype p = FCTYPE_ROOMHELPER E \<and> narg2 p < 100)
         \<or> (fctype p = FCTYPE_JOINCHAN E \<and> narg2 p = FCCHAN_PART E)
      then Returns (c, p)
      else
        (case smessage p of
           JDict d \<Rightarrow>
             (let (user_level, d1) = dict_setdefault d (JStr (ascii ''lv'')) JNone;
                  (user_id, d2) = dict_setdefault d1 (JStr (ascii ''uid'')) JNone;
                  p' = p\<lparr>smessage := JDict d2\<rparr>
              in case (if user_id = JNone then aboutmodel_uid E (registry c) p'
                       else Inr user_id) of
                   Inl e \<Rightarrow> Raises e (c, p')
                 | Inr user_id \<Rightarrow>
                     if user_id \<noteq> JNone \<and> \<not> py_eq_int user_id (- 1)
                        \<and> (user_level \<noteq> JNone \<or> py_eq_int user_level 4)
                     then
                       (case get_and_merge E user_id (Some (py_eq_int user_level 4))
                               (Merge user_id (JDict d2)) c of
                          Returns c' \<Rightarrow> Returns (c', p')
                        | Raises e c' \<Rightarrow> Raises e (c', p'))
                     else Returns (c, p'))
         | _ \<Rightarrow> Returns (c, p)))"

fun merge_tag_items :: "env \<Rightarrow> pydict \<Rightarrow> client \<Rightarrow> client outcome" where
  "merge_tag_items E [] c = Returns c"
| "merge_tag_items E ((key, v) # items) c =
     (case py_int E key of
        Inl e \<Rightarrow> Raises e c
      | Inr k \<Rightarrow>
          and_then (get_and_merge E (JInt k) None (MergeTags (JInt k) v) c)
            (merge_tag_items E items))"

definition process_tags :: "env \<Rightarrow> packet \<Rightarrow> client \<Rightarrow> client outcome" where
  "process_tags E p c =
     (case smessage p of JDict d \<Rightarrow> merge_tag_items E d c | _ \<Rightarrow> Returns c)"

fun merge_bookmarks :: "env \<Rightarrow> jvalue list \<Rightarrow> client \<Rightarrow> client outcome" where
  "merge_bookmarks E [] c = Returns c"
| "merge_bookmarks E (bookmark # bookmarks) c =
     (case getitem_str bookmark (ascii ''uid'') of
        Inl e \<Rightarrow> Raises e c
      | Inr user_id \<Rightarrow>
          and_then (get_and_merge E user_id None (Merge user_id bookmark) c)
            (merge_bookmarks E bookmarks))"

definition process_bookmarks :: "env \<Rightarrow> packet \<Rightarrow> client \<Rightarrow> client outcome" where
  "process_bookmarks E p c =
     (case str_in (ascii ''bookmarks'') (smessage p) of
        Inl e \<Rightarrow> Raises e c
      | Inr False \<Rightarrow> Returns c
      | Inr True \<Rightarrow>
          (case getitem_str (smessage p) (ascii ''bookmarks'') of
             Inl e \<Rightarrow> Raises e c
           | Inr (JList bookmarks) \<Rightarrow> merge_bookmarks E bookmarks c
           | Inr _ \<Rightarrow> Returns c))"

text \<open>
  \<^verbatim>\<open>_handle_extdata\<close> is entered for a packet addressed to this session that carries
  \<^verbatim>\<open>FCWOPT.REDIS_JSON\<close>; with a \<open>respkey\<close> in the payload it fetches over HTTP.
\<close>

definition process_extdata :: "env \<Rightarrow> packet \<Rightarrow> client \<Rightarrow> client outcome" where
  "process_extdata E p c =
     (if nto p = session_id c \<and> narg2 p = FCWOPT_REDIS_JSON E then
        (if smessage p = JNone then Returns c
         else
           (case str_in (ascii ''respkey'') (smessage p) of
              Inl e \<Rightarrow> Raises e c
            | Inr False \<Rightarrow> Returns c
            | Inr True \<Rightarrow> resolve_extdata E c (smessage p)))
      else Returns c)"

text \<open>
  The bulk lists. Every row of a roster list is merged; \<^verbatim>\<open>payload["uid"]\<close> and
  \<^verbatim>\<open>payload["lv"]\<close> raise on a row without them. Then the list of the cams fires
  \<^verbatim>\<open>CLIENT_MODELSLOADED\<close>, unless it has fired.
\<close>

fun merge_rows :: "env \<Rightarrow> jvalue list \<Rightarrow> client \<Rightarrow> client outcome" where
  "merge_rows E [] c = Returns c"
| "merge_rows E (payload # rdata) c =
     (case getitem_str payload (ascii ''uid'') of
        Inl e \<Rightarrow> Raises e c
      | Inr user_id \<Rightarrow>
          (case getitem_str payload (ascii ''lv'') of
             Inl e \<Rightarrow> Raises e c
           | Inr lv \<Rightarrow>
               and_then
                 (get_and_merge E user_id (Some (py_eq_int lv (FCLEVEL_MODEL E)))
                    (Merge user_id payload) c)
                 (merge_rows E rdata)))"

fun merge_tag_rows :: "env \<Rightarrow> pydict \<Rightarrow> client \<Rightarrow> client outcome" where
  "merge_tag_rows E [] c = Returns c"
| "merge_tag_rows E ((key, v) # items) c =
     and_then (get_and_merge E key None (MergeTags key v) c) (merge_tag_rows E items)"

definition process_managelist :: "env \<Rightarrow> packet \<Rightarrow> client \<Rightarrow> client outcome" where
  "process_managelist E p c =
     (if narg2 p > 0 then
        (case str_in (ascii ''rdata'') (smessage p) of
           Inl e \<Rightarrow> Raises e c
         | Inr False \<Rightarrow> Returns c
         | Inr True \<Rightarrow>
             (case getitem_str (smessage p) (ascii ''rdata'') of
                Inl e \<Rightarrow> Raises e c
              | Inr data \<Rightarrow>
                  (case process_list data of
                     Inl e \<Rightarrow> Raises e c
                   | Inr rdata \<Rightarrow>
                       (let ntype = narg2 p in
                        case rdata of
                          JList rows \<Rightarrow>
                            if ntype \<in> {FCL_ROOMMATES E, FCL_CAMS E, FCL_FRIENDS E, FCL_IGNORES E}
                            then
                              and_then (merge_rows E rows c)
                                (\<lambda>c1. if ntype = FCL_CAMS E \<and> \<not> completed_models c1
                                      then emit E FCTYPE_CLIENT_MODELSLOADED None
                                             (c1\<lparr>completed_models := True\<rparr>)
                                      else Returns c1)
                            else Returns c
                        | JDict items \<Rightarrow>
                            if ntype = FCL_TAGS E then
                              and_then (merge_tag_rows E items c)
                                (\<lambda>c1. if \<not> completed_tags c1
                                      then emit E FCTYPE_CLIENT_TAGSLOADED None
                                             (c1\<lparr>completed_tags := True\<rparr>)
                                      else Returns c1)
                            else Returns c
                        | _ \<Rightarrow> Returns c))))
      else Returns c)"

text \<open>\<^verbatim>\<open>str.split("/")\<close>.\<close>

fun split_on :: "nat \<Rightarrow> ustr \<Rightarrow> ustr list" where
  "split_on sep [] = [[]]"
| "split_on sep (ch # s) =
     (if ch = sep then [] # split_on sep s
      else (case split_on sep s of [] \<Rightarrow> [[ch]] | part # parts \<Rightarrow> (ch # part) # parts))"

definition process_tkx :: "packet \<Rightarrow> client \<Rightarrow> client outcome" where
  "process_tkx p c =
     (let m = smessage p in
      case str_in (ascii ''cxid'') m of
        Inl e \<Rightarrow> Raises e c
      | Inr False \<Rightarrow> Returns c
      | Inr True \<Rightarrow>
          (case str_in (ascii ''tkx'') m of
             Inl e \<Rightarrow> Raises e c
           | Inr False \<Rightarrow> Returns c
           | Inr True \<Rightarrow>
               (case str_in (ascii ''ctxenc'') m of
                  Inl e \<Rightarrow> Raises e c
                | Inr False \<Rightarrow> Returns c
                | Inr True \<Rightarrow>
                    (case getitem_str m (ascii ''cxid'') of
                       Inl e \<Rightarrow> Raises e c
                     | Inr cxid \<Rightarrow>
                         (let c1 = c\<lparr>stream_cxid := cxid\<rparr> in
                          case getitem_str m (ascii ''tkx'') of
                            Inl e \<Rightarrow> Raises e c1
                          | Inr tkx \<Rightarrow>
                              (let c2 = c1\<lparr>stream_password := tkx\<rparr> in
                               case getitem_str m (ascii ''ctxenc'') of
                                 Inl e \<Rightarrow> Raises e c2
                               | Inr (JStr ctxenc) \<Rightarrow>
                                   (let parts = split_on (of_char CHR ''/'') ctxenc in
                                    Returns (c2\<lparr>stream_vidctx :=
                                      (if length parts > 1 then JStr (parts ! 1)
                                       else JStr ctxenc)\<rparr>))
                               | Inr _ \<Rightarrow> Raises AttributeError c2))))))"

text \<open>
  \<^verbatim>\<open>Client._process_packet\<close>: the chain of \<^verbatim>\<open>if\<close> and \<^verbatim>\<open>elif\<close>, in its order. The packet
  is returned with the client, because one branch changes its payload.
\<close>

definition with_packet :: "packet \<Rightarrow> client outcome \<Rightarrow> (client \<times> packet) outcome" where
  "with_packet p r = (case r of Returns c \<Rightarrow> Returns (c, p) | Raises e c \<Rightarrow> Raises e (c, p))"

definition process_packet :: "env \<Rightarrow> packet \<Rightarrow> client \<Rightarrow> (client \<times> packet) outcome" where
  "process_packet E p c =
     (if fctype p = FCTYPE_LOGIN E then with_packet p (process_login p c)
      else if fctype p \<in> {FCTYPE_DETAILS E, FCTYPE_ROOMHELPER E, FCTYPE_SESSIONSTATE E,
                           FCTYPE_ADDFRIEND E, FCTYPE_ADDIGNORE E, FCTYPE_CMESG E,
                           FCTYPE_PMESG E, FCTYPE_TXPROFILE E, FCTYPE_USERNAMELOOKUP E,
                           FCTYPE_MYCAMSTATE E, FCTYPE_MYWEBCAM E}
        then process_details E p c
      else if fctype p = FCTYPE_TAGS E then with_packet p (process_tags E p c)
      else if fctype p = FCTYPE_BOOKMARKS E then with_packet p (process_bookmarks E p c)
      else if fctype p = FCTYPE_METRICS E then Returns (c, p)
      else if fctype p = FCTYPE_EXTDATA E then with_packet p (process_extdata E p c)
      else if fctype p = FCTYPE_MANAGELIST E then with_packet p (process_managelist E p c)
      else if fctype p = FCTYPE_TKX E then with_packet p (process_tkx p c)
      else Returns (c, p))"

text \<open>
  \<^verbatim>\<open>Client.handle_packet_received\<close>: merge the packet, then emit it under its kind and
  under \<^verbatim>\<open>FCTYPE.ANY\<close>.
\<close>

definition handle_packet_received :: "env \<Rightarrow> client \<Rightarrow> packet \<Rightarrow> client outcome" where
  "handle_packet_received E c p =
     (case process_packet E p c of
        Raises e (c1, p1) \<Rightarrow> Raises e c1
      | Returns (c1, p1) \<Rightarrow>
          and_then (emit E (fctype p1) (Some p1) c1) (emit E FCTYPE_ANY (Some p1)))"

subsection \<open>Disconnecting\<close>

text \<open>
  \<^verbatim>\<open>Client.handle_disconnected\<close>. \<^verbatim>\<open>self.username.startswith("Guest")\<close> is evaluated
  when the password is \<open>guest\<close>, and is an attribute of a \<^verbatim>\<open>str\<close> only.
\<close>

definition handle_disconnected :: "env \<Rightarrow> client \<Rightarrow> client outcome" where
  "handle_disconnected E c =
     (let c1 = c\<lparr>keepalive := False\<rparr> in
      case (if password c1 = ascii ''guest'' then
              (case username c1 of
                 JStr name \<Rightarrow>
                   Returns (if take 5 name = ascii ''Guest''
                            then c1\<lparr>username := JStr (ascii ''guest'')\<rparr> else c1)
               | _ \<Rightarrow> Raises AttributeError c1)
            else Returns c1) of
        Raises e c2 \<Rightarrow> Raises e c2
      | Returns c2 \<Rightarrow>
          (let c3 = c2\<lparr>completed_models := False, completed_tags := False\<rparr>;
               c4 = (if \<not> manual_disconnect c3
                     then c3\<lparr>timers := timers c3 @ [(30, Reconnect)]\<rparr>
                     else c3\<lparr>loop_stopped := True\<rparr>);
               c5 = c4\<lparr>manual_disconnect := False\<rparr>
           in and_then (emit E FCTYPE_CLIENT_DISCONNECTED None c5)
                (\<lambda>c6. case call_registry E ResetAll c6 of
                         (Inl e, c7) \<Rightarrow> Raises e c7
                       | (Inr _, c7) \<Rightarrow> Returns c7)))"

text \<open>\<^verbatim>\<open>MFCProtocol.connection_lost\<close> calls it, whatever the reason.\<close>

definition connection_lost :: "env \<Rightarrow> client \<Rightarrow> client outcome" where
  "connection_lost E c = handle_disconnected E c"

text \<open>
  The protocol of a client: \<^verbatim>\<open>data_received\<close> with the client as its handler; a stop of
  the event loop is seen by the client too, which shares the loop.
\<close>

definition client_data_received ::
  "env \<Rightarrow> client \<Rightarrow> byte list \<Rightarrow> byte list \<Rightarrow> (client \<times> byte list) option" where
  "client_data_received E c buffer data =
     (case data_received (json_loads E) (handle_packet_received E) c buffer data of
        None \<Rightarrow> None
      | Some (c', buffer', stopped) \<Rightarrow>
          Some (if stopped then c'\<lparr>loop_stopped := True\<rparr> else c', buffer'))"

subsection \<open>Connecting\<close>

text \<open>
  \<^verbatim>\<open>Client.connect\<close>. Finding a server (\<^verbatim>\<open>_get_servers\<close> and the choice among
  \<^verbatim>\<open>chat_servers\<close>) and \<^verbatim>\<open>loop.create_connection\<close> reach the network; each is given by
  the exception it raises, if any. The new connection has a transport on which nothing
  is written and a protocol with an empty buffer. The coroutine ends once the login
  command is written and the calls are scheduled: it reads no response.
\<close>

definition connect :: "env \<Rightarrow> exn option \<Rightarrow> exn option \<Rightarrow> bool \<Rightarrow> client \<Rightarrow> client outcome" where
  "connect E server_error connection_error login c =
     (case server_error of
        Some e \<Rightarrow> Raises e c
      | None \<Rightarrow>
          (let c1 = c\<lparr>logged_in := login\<rparr> in
           case connection_error of
             Some e \<Rightarrow> Raises e c1
           | None \<Rightarrow>
               (let c2 = c1\<lparr>transport := Some []\<rparr> in
                and_then
                  (if login then
                     and_then
                       (tx_cmd E (FCTYPE_LOGIN E) 0 20071025 0
                          (JStr (py_str E (username c2) @ ascii '':'' @ password c2)) c2)
                       (\<lambda>c3. Returns
                          (if keepalive c3 then c3
                           else c3\<lparr>keepalive := True,
                                   timers := timers c3 @ [(120, PingLoop)]\<rparr>))
                   else Returns c2)
                  (\<lambda>c4. Returns (c4\<lparr>timers := timers c4 @ [(0, EmitConnected)]\<rparr>)))))"

text \<open>
  \<^verbatim>\<open>SimpleClient.connect\<close>: \<^verbatim>\<open>run_until_complete\<close> of the coroutine, which raises what the
  coroutine raises, then \<^verbatim>\<open>run_forever\<close> and \<^verbatim>\<open>close\<close>. Of the event loop this much is
  modelled: it runs the call of \<^verbatim>\<open>emit\<close> that \<^verbatim>\<open>connect\<close> scheduled, an exception of which
  it logs; it hands each chunk that arrives on the connection to \<^verbatim>\<open>data_received\<close>; and
  \<^verbatim>\<open>run_forever\<close> returns when \<^verbatim>\<open>loop.stop()\<close> was called. When the chunks are used up and
  the loop was not stopped, \<^verbatim>\<open>run_forever\<close> waits and does not return. Timers and the loss
  of the connection are outside this model.
\<close>

fun run_forever :: "env \<Rightarrow> client \<Rightarrow> byte list \<Rightarrow> byte list list \<Rightarrow> client option" where
  "run_forever E c buffer [] = (if loop_stopped c then Some c else None)"
| "run_forever E c buffer (data # chunks) =
     (if loop_stopped c then Some c
      else
        (case client_data_received E c buffer data of
           None \<Rightarrow> None
         | Some (c', buffer') \<Rightarrow> run_forever E c' buffer' chunks))"

definition simple_connect ::
  "env \<Rightarrow> exn option \<Rightarrow> exn option \<Rightarrow> bool \<Rightarrow> client \<Rightarrow> byte list list
     \<Rightarrow> client outcome option" where
  "simple_connect E server_error connection_error login c chunks =
     (case connect E server_error connection_error login c of
        Raises e c1 \<Rightarrow> Some (Raises e c1)
      | Returns c1 \<Rightarrow>
          map_option Returns
            (run_forever E (outcome_state (emit E FCTYPE_CLIENT_CONNECTED None c1)) [] chunks))"

text \<open>How often \<^verbatim>\<open>CLIENT_MODELSLOADED\<close> was emitted.\<close>

definition models_fired :: "client \<Rightarrow> nat" where
  "models_fired c = length (filter (\<lambda>e. fst e = FCTYPE_CLIENT_MODELSLOADED) (emitted c))"

section \<open>An environment for the examples\<close>

text \<open>
  The general statements below hold for every environment. The examples are evaluated
  in this one. Its parser reads an unsigned decimal integer, as \<^verbatim>\<open>json.loads\<close> does, and
  reports a syntax error on every other text; the examples give it no other text that
  \<^verbatim>\<open>json.loads\<close> would accept. Its format prints texts, booleans and \<^verbatim>\<open>None\<close>; the
  examples print nothing else. Its registry has a model for every id and never raises,
  its HTTP fetch fails, and its constants are pairwise different numbers.
\<close>

definition decimal :: "ustr \<Rightarrow> bool" where
  "decimal s = (s \<noteq> [] \<and> list_all (\<lambda>ch. 48 \<le> ch \<and> ch \<le> 57) s \<and> (length s = 1 \<or> hd s \<noteq> 48))"

definition sample_loads :: "ustr \<Rightarrow> exn + jvalue" where
  "sample_loads s =
     (if decimal s then Inr (JInt (foldl (\<lambda>a ch. 10 * a + (int ch - 48)) 0 s))
      else Inl JSONDecodeError)"

definition sample_env :: env where
  "sample_env =
     \<lparr>json_loads = sample_loads,
      py_int = (\<lambda>v. case v of
                  JInt n \<Rightarrow> Inr n
                | JStr s \<Rightarrow>
                    (case sample_loads s of Inr (JInt n) \<Rightarrow> Inr n | _ \<Rightarrow> Inl ValueError)
                | _ \<Rightarrow> Inl TypeError),
      py_str = (\<lambda>v. case v of
                  JStr s \<Rightarrow> s
                | JBool b \<Rightarrow> (if b then ascii ''True'' else ascii ''False'')
                | _ \<Rightarrow> ascii ''None''),
      registry_call = (\<lambda>calls call. Inr True),
      aboutmodel_uid = (\<lambda>calls p. Inr JNone),
      resolve_extdata = (\<lambda>c v. Raises URLError c),
      FCTYPE_members = [- 6, - 5, - 4, - 3, - 2, - 1, 0, 1, 2, 3, 5, 6, 7, 10, 14, 20, 33,
                        43, 44, 50, 51, 61, 64, 69, 73, 81, 97],
      FCTYPE_NULL = 0, FCTYPE_LOGIN = 1, FCTYPE_DETAILS = 5, FCTYPE_ROOMHELPER = 33,
      FCTYPE_SESSIONSTATE = 20, FCTYPE_ADDFRIEND = 2, FCTYPE_ADDIGNORE = 7,
      FCTYPE_CMESG = 50, FCTYPE_PMESG = 3, FCTYPE_TXPROFILE = 61,
      FCTYPE_USERNAMELOOKUP = 10, FCTYPE_MYCAMSTATE = 43, FCTYPE_MYWEBCAM = 44,
      FCTYPE_TOKENINC = 6, FCTYPE_JOINCHAN = 51, FCTYPE_TAGS = 64, FCTYPE_BOOKMARKS = 73,
      FCTYPE_METRICS = 69, FCTYPE_EXTDATA = 81, FCTYPE_MANAGELIST = 14, FCTYPE_TKX = 97,
      FCCHAN_PART = 2, FCWOPT_REDIS_JSON = 8192, FCL_ROOMMATES = 12, FCL_CAMS = 13,
      FCL_FRIENDS = 1, FCL_IGNORES = 2, FCL_TAGS = 11, FCLEVEL_MODEL = 4\<rparr>"

text \<open>
  Frames for the examples: a chat message with the text \<open>hi\<close>, a login response
  without payload, a message whose payload \<open>{"a":\<close> is cut short, a login response that
  refuses the login, and a list of the cams and a list of tags whose payload \<open>{"rdata":[\<close>
  is cut short.
\<close>

definition chat_frame :: frame where
  "chat_frame =
     \<lparr>f_kind = 50, f_from = 7, f_to = 0, f_arg1 = 0, f_arg2 = 0, f_payload = [104, 105]\<rparr>"

definition login_frame :: frame where
  "login_frame =
     \<lparr>f_kind = 1, f_from = 0, f_to = 4242, f_arg1 = 0, f_arg2 = 555, f_payload = []\<rparr>"

definition cut_frame :: frame where
  "cut_frame =
     \<lparr>f_kind = 5, f_from = 7, f_to = 0, f_arg1 = 0, f_arg2 = 0,
      f_payload = [123, 34, 97, 34, 58]\<rparr>"

definition refused_login_frame :: frame where
  "refused_login_frame =
     \<lparr>f_kind = 1, f_from = 0, f_to = 0, f_arg1 = 1, f_arg2 = 0, f_payload = []\<rparr>"

definition cut_list_frame :: frame where
  "cut_list_frame =
     \<lparr>f_kind = 14, f_from = 0, f_to = 0, f_arg1 = 0, f_arg2 = 13,
      f_payload = [123, 34, 114, 100, 97, 116, 97, 34, 58, 91]\<rparr>"

definition cut_tags_frame :: frame where
  "cut_tags_frame =
     \<lparr>f_kind = 64, f_from = 0, f_to = 0, f_arg1 = 0, f_arg2 = 13,
      f_payload = [123, 34, 114, 100, 97, 116, 97, 34, 58, 91]\<rparr>"

text \<open>The text of that payload, and the packets that the decoder makes of the two frames.\<close>

definition cut_text :: ustr where
  "cut_text = [123, 34, 114, 100, 97, 116, 97, 34, 58, 91]"

definition cut_list :: packet where
  "cut_list =
     \<lparr>fctype = 14, nfrom = 0, nto = 0, narg1 = 0, narg2 = 13, smessage = JStr cut_text\<rparr>"

definition cut_tags :: packet where
  "cut_tags =
     \<lparr>fctype = 64, nfrom = 0, nto = 0, narg1 = 0, narg2 = 13, smessage = JStr cut_text\<rparr>"

text \<open>
  A client as \<^verbatim>\<open>SimpleClient()\<close> makes it, with the default credentials, and a client
  that is connected: its transport is there, and nothing is written yet.
\<close>

definition fresh_guest :: client where
  "fresh_guest = new_client (JStr (ascii ''guest'')) (ascii ''guest'')"

definition guest_client :: client where
  "guest_client = (new_client (JStr (ascii ''guest'')) (ascii ''guest''))\<lparr>transport := Some []\<rparr>"

text \<open>
  Packets for the examples: a login response with the name \<open>alice\<close>, a login response
  without payload, and a bulk list of the cams with no rows.
\<close>

definition alice_login :: packet where
  "alice_login =
     \<lparr>fctype = 1, nfrom = 0, nto = 4242, narg1 = 0, narg2 = 555,
      smessage = JStr (ascii ''alice'')\<rparr>"

definition bare_login :: packet where
  "bare_login =
     \<lparr>fctype = 1, nfrom = 0, nto = 4242, narg1 = 0, narg2 = 555, smessage = JNone\<rparr>"

definition cams_list :: packet where
  "cams_list =
     \<lparr>fctype = 14, nfrom = 0, nto = 0, narg1 = 0, narg2 = 13,
      smessage = JDict [(JStr (ascii ''rdata''), JList [])]\<rparr>"

text \<open>The connected client after two calls of \<^verbatim>\<open>query_user\<close>, by id and by name.\<close>

definition two_queries :: client where
  "two_queries =
     outcome_state (query_user sample_env (JStr (ascii ''bob''))
       (outcome_state (query_user sample_env (JInt 1234) guest_client)))"

text \<open>
  The connected client after the login response without payload and the list of the
  cams.
\<close>

definition after_bare_login :: client where
  "after_bare_login = outcome_state (handle_packet_received sample_env guest_client bare_login)"

definition after_cams_list :: client where
  "after_cams_list = outcome_state (handle_packet_received sample_env after_bare_login cams_list)"

section \<open>Properties of the id conversions\<close>

text \<open>
  C10, as stated: the round trip through \<open>toroomid\<close> and \<open>touserid\<close> returns every id
  below 100000000, and \<open>toroomid\<close> is idempotent on all inputs. Both fail at the id
  \<open>-1\<close>: its room id 99999999 is still below 100000000, so \<open>touserid\<close> leaves it alone
  and a second \<open>toroomid\<close> adds the offset again.
\<close>

theorem C10_negative_id_counterexample:
  "touserid (toroomid (-1)) \<noteq> -1 \<and> toroomid (toroomid (-1)) \<noteq> toroomid (-1)"
  by (simp add: touserid_def toroomid_def)

text \<open>
  C10, amended: for every id from 0 up to, but excluding, 100000000, \<open>toroomid\<close> adds
  exactly 100000000 and \<open>touserid\<close> returns the original id; every id at or above
  100000000 is returned unchanged by \<open>toroomid\<close>; and \<open>toroomid\<close> is idempotent on every
  non-negative id.
\<close>

theorem C10_room_id_round_trip:
  "(0 \<le> i \<and> i < 100000000 \<longrightarrow>
      toroomid i = i + 100000000 \<and> touserid (toroomid i) = i)
   \<and> (100000000 \<le> i \<longrightarrow> toroomid i = i)
   \<and> (0 \<le> i \<longrightarrow> toroomid (toroomid i) = toroomid i)"
  by (simp add: touserid_def toroomid_def)

theorem C10_room_id_round_trip_witness:
  "toroomid 12345 = 12345 + 100000000 \<and> touserid (toroomid 12345) = 12345
   \<and> toroomid 300000007 = 300000007
   \<and> toroomid (toroomid 12345) = toroomid 12345"
proof -
  have small: "(0::int) \<le> 12345 \<and> (12345::int) < 100000000"
    by simp
  have large: "(100000000::int) \<le> 300000007"
    by simp
  from small large C10_room_id_round_trip [of 12345] C10_room_id_round_trip [of 300000007]
  show ?thesis
    by blast
qed

section \<open>Query ids are allocated in increasing order\<close>

lemma alloc_inv_init: "alloc_inv alloc_init"
  by (simp add: alloc_inv_def alloc_init_def fresh_below_def pc_ok_def)

text \<open>While a thread is inside the block, every other thread is outside.\<close>

lemma others_idle:
  assumes "alloc_inv s" and "pcs s t \<noteq> Idle" and "u \<noteq> t"
  shows "pcs s u = Idle"
proof (rule ccontr)
  assume "pcs s u \<noteq> Idle"
  with assms(1) have "alloc_userQueryLock s = Some u"
    by (simp add: alloc_inv_def)
  moreover from assms(1,2) have "alloc_userQueryLock s = Some t"
    by (simp add: alloc_inv_def)
  ultimately show False
    using assms(3) by simp
qed

lemma alloc_inv_step:
  assumes inv: "alloc_inv s"
  shows "alloc_inv (alloc_step t s)"
proof (cases "pcs s t")
  case Idle
  show ?thesis
  proof (cases "alloc_userQueryLock s = None")
    case True
    with inv have all_idle: "\<And>u. pcs s u = Idle" and fb: "fresh_below s"
      by (auto simp: alloc_inv_def)
    have step: "alloc_step t s = s\<lparr>alloc_userQueryLock := Some t, pcs := (pcs s)(t := Acquired)\<rparr>"
      using Idle True by (simp add: alloc_step_def)
    show ?thesis
      using inv fb all_idle unfolding step
      by (simp add: alloc_inv_def fresh_below_def pc_ok_def)
  next
    case False
    then have "alloc_step t s = s"
      using Idle by (auto simp: alloc_step_def)
    then show ?thesis
      using inv by simp
  qed
next
  case Acquired
  then have ne: "pcs s t \<noteq> Idle"
    by simp
  have oth: "\<And>u. u \<noteq> t \<Longrightarrow> pcs s u = Idle"
    using others_idle [OF inv ne] by simp
  from inv Acquired have fb: "fresh_below s"
    by (auto simp: alloc_inv_def pc_ok_def dest: spec [where x = t])
  from inv ne have lk: "alloc_userQueryLock s = Some t"
    by (simp add: alloc_inv_def)
  have step: "alloc_step t s =
      s\<lparr>pcs := (pcs s)(t := GotId (alloc_userQueryId s)),
        allocated := allocated s @ [alloc_userQueryId s]\<rparr>"
    using Acquired by (simp add: alloc_step_def)
  from inv have srt: "sorted_wrt (<) (allocated s)"
    by (simp add: alloc_inv_def)
  have le: "list_all (\<lambda>x. x \<le> alloc_userQueryId s) (allocated s)"
    using inv by (simp add: alloc_inv_def)
  show ?thesis
    unfolding step alloc_inv_def
    using srt fb lk oth le
    by (simp add: sorted_wrt_append fresh_below_def pc_ok_def list_all_iff)
next
  case (GotId q)
  then have ne: "pcs s t \<noteq> Idle"
    by simp
  have oth: "\<And>u. u \<noteq> t \<Longrightarrow> pcs s u = Idle"
    using others_idle [OF inv ne] by simp
  from inv GotId have q: "q = alloc_userQueryId s"
    by (auto simp: alloc_inv_def pc_ok_def dest: spec [where x = t])
  from inv ne have lk: "alloc_userQueryLock s = Some t"
    by (simp add: alloc_inv_def)
  have step: "alloc_step t s = s\<lparr>pcs := (pcs s)(t := Loaded q (alloc_userQueryId s))\<rparr>"
    using GotId by (simp add: alloc_step_def)
  from inv have srt: "sorted_wrt (<) (allocated s)"
    by (simp add: alloc_inv_def)
  have le: "list_all (\<lambda>x. x \<le> alloc_userQueryId s) (allocated s)"
    using inv by (simp add: alloc_inv_def)
  show ?thesis
    unfolding step alloc_inv_def
    using srt q lk oth le
    by (simp add: fresh_below_def pc_ok_def)
next
  case (Loaded q v)
  then have ne: "pcs s t \<noteq> Idle"
    by simp
  have oth: "\<And>u. u \<noteq> t \<Longrightarrow> pcs s u = Idle"
    using others_idle [OF inv ne] by simp
  from inv Loaded have v: "v = alloc_userQueryId s"
    by (auto simp: alloc_inv_def pc_ok_def dest: spec [where x = t])
  from inv ne have lk: "alloc_userQueryLock s = Some t"
    by (simp add: alloc_inv_def)
  have step: "alloc_step t s = s\<lparr>alloc_userQueryId := v + 1, pcs := (pcs s)(t := Stored q)\<rparr>"
    using Loaded by (simp add: alloc_step_def)
  from inv have srt: "sorted_wrt (<) (allocated s)"
    by (simp add: alloc_inv_def)
  have le: "list_all (\<lambda>x. x \<le> alloc_userQueryId s) (allocated s)"
    using inv by (simp add: alloc_inv_def)
  then have lt: "list_all (\<lambda>x. x < alloc_userQueryId s + 1) (allocated s)"
    by (simp add: list_all_iff)
  then have le': "list_all (\<lambda>x. x \<le> alloc_userQueryId s + 1) (allocated s)"
    by (auto simp: list_all_iff)
  show ?thesis
    unfolding step alloc_inv_def
    using srt v lk oth lt le'
    by (simp add: fresh_below_def pc_ok_def)
next
  case (Stored q)
  then have ne: "pcs s t \<noteq> Idle"
    by simp
  have oth: "\<And>u. u \<noteq> t \<Longrightarrow> pcs s u = Idle"
    using others_idle [OF inv ne] by simp
  from inv Stored have fb: "fresh_below s"
    by (auto simp: alloc_inv_def pc_ok_def dest: spec [where x = t])
  have step: "alloc_step t s = s\<lparr>alloc_userQueryLock := None, pcs := (pcs s)(t := Idle)\<rparr>"
    using Stored by (simp add: alloc_step_def)
  from inv have srt: "sorted_wrt (<) (allocated s)"
    by (simp add: alloc_inv_def)
  have le: "list_all (\<lambda>x. x \<le> alloc_userQueryId s) (allocated s)"
    using inv by (simp add: alloc_inv_def)
  show ?thesis
    unfolding step alloc_inv_def
    using srt fb oth le
    by (simp add: fresh_below_def pc_ok_def)
qed

lemma alloc_inv_run: "alloc_inv s \<Longrightarrow> alloc_inv (alloc_run ts s)"
  by (induction ts arbitrary: s) (simp_all add: alloc_inv_step)

lemma alloc_run_append: "alloc_run (ts @ us) s = alloc_run us (alloc_run ts s)"
  by (induction ts arbitrary: s) simp_all

text \<open>
  Two callers that interleave step by step: thread 1 asks for the lock while thread 0
  holds it, and gets the next id once thread 0 has left the block.
\<close>

lemma alloc_two_threads:
  "allocated (alloc_run [0, 1, 0, 1, 0, 0, 1, 0, 1, 1, 1, 1, 1] alloc_init) = [20, 21]"
  by (simp add: alloc_init_def alloc_step_def)

text \<open>
  C8: in every schedule of any number of concurrent callers, the ids are allocated in
  strictly increasing order: an id allocated later is greater than every id allocated
  earlier, hence no two allocations return the same id.
\<close>

theorem C8_query_ids_strictly_increasing:
  "sorted_wrt (<) (allocated (alloc_run ts alloc_init))
   \<and> distinct (allocated (alloc_run ts alloc_init))"
proof -
  have "alloc_inv (alloc_run ts alloc_init)"
    by (rule alloc_inv_run [OF alloc_inv_init])
  then have "sorted_wrt (<) (allocated (alloc_run ts alloc_init))"
    by (simp add: alloc_inv_def)
  then show ?thesis
    by (simp add: strict_sorted_iff)
qed

section \<open>Facts about Python values\<close>

lemma ascii_eq [simp]: "ascii a = ascii b \<longleftrightarrow> a = b"
  by (simp add: ascii_def inj_map_eq_map inj_on_def)

lemma key_eq_JStr [simp]: "key_eq (JStr a) (JStr b) \<longleftrightarrow> a = b"
  by (simp add: key_eq_def)

lemma key_eq_sym: "key_eq a b = key_eq b a"
  by (auto simp: key_eq_def split: option.splits)

lemma key_eq_trans: "key_eq a b \<Longrightarrow> key_eq b c \<Longrightarrow> key_eq a c"
  by (auto simp: key_eq_def split: option.splits)

lemma dict_get_set:
  "dict_get (dict_set d k v) k' = (if key_eq k k' then Some v else dict_get d k')"
proof (induction d)
  case Nil
  then show ?case by simp
next
  case (Cons kv d)
  obtain k0 v0 where kv: "kv = (k0, v0)" by (cases kv)
  show ?case
  proof (cases "key_eq k0 k")
    case True
    then have "key_eq k0 k' \<longleftrightarrow> key_eq k k'"
      using key_eq_trans key_eq_sym by blast
    with True show ?thesis by (simp add: kv)
  next
    case False
    then have "key_eq k0 k' \<Longrightarrow> \<not> key_eq k k'"
      using key_eq_trans key_eq_sym by blast
    with False Cons.IH show ?thesis by (auto simp: kv)
  qed
qed

section \<open>The list decoder fills each slot\<close>

lemma named_slot_cases:
  assumes "named_slot p"
  obtains (Field) f where "p = [JStr f]" | (Group) g s where "p = [JStr g, JStr s]"
  using assms by (induction p rule: named_slot.induct) auto

lemma set_path_field:
  "set_path msg [JStr f] item = Inr (dict_set msg (JStr f) item)"
  by simp

lemma set_path_effect:
  assumes p: "named_slot p" and ok: "groups_ok msg (p # sm)"
  shows "\<exists>msg'. set_path msg p item = Inr msg' \<and> path_get msg' p = Some item
     \<and> (\<forall>q. named_slot q \<longrightarrow> q \<noteq> p \<longrightarrow> apart p q \<longrightarrow> path_get msg' q = path_get msg q)
     \<and> ((\<forall>q \<in> set sm. apart p q) \<longrightarrow> groups_ok msg' sm)"
  using p
proof (cases rule: named_slot_cases)
  case (Field f)
  have 1: "set_path msg p item = Inr (dict_set msg (JStr f) item)"
    by (simp add: Field)
  have 2: "path_get (dict_set msg (JStr f) item) p = Some item"
    by (simp add: Field dict_get_set)
  have 3: "path_get (dict_set msg (JStr f) item) q = path_get msg q"
    if "named_slot q" "q \<noteq> p" "apart p q" for q
    using that(1)
  proof (cases rule: named_slot_cases)
    case (Field f')
    with that \<open>p = [JStr f]\<close> show ?thesis by (simp add: dict_get_set)
  next
    case (Group g s)
    with that \<open>p = [JStr f]\<close> show ?thesis by (simp add: dict_get_set apart_def)
  qed
  have 4: "groups_ok (dict_set msg (JStr f) item) sm" if "\<forall>q \<in> set sm. apart p q"
    unfolding groups_ok_def
  proof (intro allI impI)
    fix g s assume in_sm: "[JStr g, JStr s] \<in> set sm"
    with that have "apart p [JStr g, JStr s]" by blast
    then have "f \<noteq> g" by (simp add: apart_def Field)
    moreover from ok in_sm have "holds_dict (dict_get msg (JStr g))"
      by (auto simp: groups_ok_def)
    ultimately show "holds_dict (dict_get (dict_set msg (JStr f) item) (JStr g))"
      by (simp add: dict_get_set)
  qed
  from 1 2 3 4 show ?thesis by blast
next
  case (Group g s)
  from ok have hd: "holds_dict (dict_get msg (JStr g))"
    by (auto simp: groups_ok_def Group)
  have "\<exists>d. set_path msg [JStr g, JStr s] item = Inr (dict_set msg (JStr g) (JDict (dict_set d (JStr s) item)))
     \<and> (\<forall>s'. path_get msg [JStr g, JStr s'] = dict_get d (JStr s'))"
  proof (cases "dict_get msg (JStr g)")
    case None
    then show ?thesis by (intro exI [of _ "[]"]) (simp add: dict_setdefault_def)
  next
    case (Some v)
    with hd obtain d where "v = JDict d" by (cases v) auto
    with Some show ?thesis by (auto simp: dict_setdefault_def)
  qed
  then obtain d where 1: "set_path msg p item = Inr (dict_set msg (JStr g) (JDict (dict_set d (JStr s) item)))"
    and d: "\<And>s'. path_get msg [JStr g, JStr s'] = dict_get d (JStr s')"
    unfolding Group by blast
  let ?m = "dict_set msg (JStr g) (JDict (dict_set d (JStr s) item))"
  have 2: "path_get ?m p = Some item"
    by (simp add: Group dict_get_set)
  have 3: "path_get ?m q = path_get msg q"
    if "named_slot q" "q \<noteq> p" "apart p q" for q
    using that(1)
  proof (cases rule: named_slot_cases)
    case (Field f')
    with that \<open>p = [JStr g, JStr s]\<close> show ?thesis by (simp add: dict_get_set apart_def)
  next
    case G: (Group g' s')
    show ?thesis
    proof (cases "g' = g")
      case True
      with that G \<open>p = [JStr g, JStr s]\<close> have "s' \<noteq> s" by auto
      then have "path_get ?m q = dict_get d (JStr s')"
        by (simp add: G True dict_get_set)
      also have "\<dots> = path_get msg q"
        using d [of s'] by (simp add: G True)
      finally show ?thesis .
    next
      case False
      then show ?thesis by (simp add: G dict_get_set)
    qed
  qed
  have 4: "groups_ok ?m sm"
    unfolding groups_ok_def
  proof (intro allI impI)
    fix g' s' assume in_sm: "[JStr g', JStr s'] \<in> set sm"
    from ok in_sm have "holds_dict (dict_get msg (JStr g'))"
      by (auto simp: groups_ok_def)
    then show "holds_dict (dict_get ?m (JStr g'))"
      by (simp add: dict_get_set)
  qed
  from 1 2 3 4 show ?thesis by blast
qed

lemma build_msg_slots:
  assumes "list_all named_slot sm" and "distinct sm"
    and "\<forall>p \<in> set sm. \<forall>q \<in> set sm. apart p q"
    and "length items \<le> length sm" and "groups_ok msg sm"
  shows "\<exists>msg'. build_msg sm items msg = Inr msg'
     \<and> list_all2 (\<lambda>path item. path_get msg' path = Some item) (take (length items) sm) items
     \<and> (\<forall>q. named_slot q \<longrightarrow> q \<notin> set sm \<longrightarrow> (\<forall>p \<in> set sm. apart p q)
           \<longrightarrow> path_get msg' q = path_get msg q)"
  using assms
proof (induction sm items msg rule: build_msg.induct)
  case (1 schema_map msg)
  then show ?case by simp
next
  case (2 item items msg)
  then show ?case by simp
next
  case (3 path schema_map item items msg)
  from "3.prems" have np: "named_slot path" by simp
  from set_path_effect [OF np "3.prems"(5), of item]
  obtain msg1 where s1: "set_path msg path item = Inr msg1"
    and g1: "path_get msg1 path = Some item"
    and k1: "\<And>q. named_slot q \<Longrightarrow> q \<noteq> path \<Longrightarrow> apart path q \<Longrightarrow> path_get msg1 q = path_get msg q"
    and ok1: "(\<forall>q \<in> set schema_map. apart path q) \<Longrightarrow> groups_ok msg1 schema_map"
    by blast
  from "3.prems" have ap: "\<forall>q \<in> set schema_map. apart path q" by simp
  have "\<exists>msg'. build_msg schema_map items msg1 = Inr msg'
     \<and> list_all2 (\<lambda>path item. path_get msg' path = Some item) (take (length items) schema_map) items
     \<and> (\<forall>q. named_slot q \<longrightarrow> q \<notin> set schema_map \<longrightarrow> (\<forall>p \<in> set schema_map. apart p q)
           \<longrightarrow> path_get msg' q = path_get msg1 q)"
    using "3.prems" ok1 [OF ap] by (intro "3.IH" [OF s1]) simp_all
  then obtain msg' where b: "build_msg schema_map items msg1 = Inr msg'"
    and l: "list_all2 (\<lambda>path item. path_get msg' path = Some item) (take (length items) schema_map) items"
    and k: "\<And>q. named_slot q \<Longrightarrow> q \<notin> set schema_map \<Longrightarrow> (\<forall>p \<in> set schema_map. apart p q)
           \<Longrightarrow> path_get msg' q = path_get msg1 q"
    by blast
  have sym: "\<forall>p \<in> set schema_map. apart p path"
    using "3.prems"(3) by simp
  have "path_get msg' path = Some item"
    using k [OF np] "3.prems"(2) sym g1 by simp
  moreover have "path_get msg' q = path_get msg q"
    if "named_slot q" "q \<notin> set (path # schema_map)" "\<forall>p \<in> set (path # schema_map). apart p q" for q
    using that k [of q] k1 [of q] by simp
  ultimately show ?case
    using s1 b l by simp
qed

lemma decode_rows_spec:
  assumes "wf_schema_map sm" and "list_all (fits sm) records"
  shows "\<exists>result. decode_rows sm records = Inr result
     \<and> list_all2 (row_decoded sm) (filter is_row records) result"
  using assms
proof (induction sm records rule: decode_rows.induct)
  case (1 schema_map)
  then show ?case by simp
next
  case (2 schema_map items records)
  from "2.prems"(1) have wf: "list_all named_slot schema_map" "distinct schema_map"
    "\<forall>p \<in> set schema_map. \<forall>q \<in> set schema_map. apart p q"
    by (simp_all add: wf_schema_map_def list_all_iff)
  from "2.prems"(2) have len: "length items \<le> length schema_map"
    by simp
  have "groups_ok [] schema_map"
    by (simp add: groups_ok_def)
  from build_msg_slots [OF wf len this]
  obtain msg where b: "build_msg schema_map items [] = Inr msg"
    and l: "list_all2 (\<lambda>path item. path_get msg path = Some item)
              (take (length items) schema_map) items"
    by blast
  from "2.prems" "2.IH" [OF b]
  obtain result where "decode_rows schema_map records = Inr result"
    and "list_all2 (row_decoded schema_map) (filter is_row records) result"
    by auto
  with b l show ?case
    by simp
next
  case (3 schema_map d records)
  then show ?case by auto
qed auto

text \<open>
  C6, as stated: the schema \<open>["uid", {"session": ["vs", "camscore"]}]\<close> with the row
  \<open>[12345, [0, 99]]\<close> gives \<open>{"uid": 12345, "session": {"vs": 0, "camscore": 99}}\<close>.
  The decoder flattens the schema into the slots \<open>uid\<close>, \<open>session.vs\<close> and
  \<open>session.camscore\<close> and walks the row item by item, so the second item, the list
  \<open>[0, 99]\<close>, lands whole in \<open>session.vs\<close>, and \<open>session.camscore\<close> is never set.
\<close>

theorem C6_nested_row_counterexample:
  "process_list (JList
      [JList [JStr (ascii ''uid''),
              JDict [(JStr (ascii ''session''),
                      JList [JStr (ascii ''vs''), JStr (ascii ''camscore'')])]],
       JList [JInt 12345, JList [JInt 0, JInt 99]]])
   = Inr (JList
      [JDict [(JStr (ascii ''uid''), JInt 12345),
              (JStr (ascii ''session''),
               JDict [(JStr (ascii ''vs''), JList [JInt 0, JInt 99])])]])
   \<and> process_list (JList
      [JList [JStr (ascii ''uid''),
              JDict [(JStr (ascii ''session''),
                      JList [JStr (ascii ''vs''), JStr (ascii ''camscore'')])]],
       JList [JInt 12345, JList [JInt 0, JInt 99]]])
   \<noteq> Inr (JList
      [JDict [(JStr (ascii ''uid''), JInt 12345),
              (JStr (ascii ''session''),
               JDict [(JStr (ascii ''vs''), JInt 0),
                      (JStr (ascii ''camscore''), JInt 99)])]])"
  by (simp add: schema_map_of_def dict_setdefault_def)

text \<open>
  C6, amended: the schema \<open>["uid", {"session": ["vs", "camscore"]}]\<close> with the flat row
  \<open>[12345, 0, 99]\<close> gives \<open>{"uid": 12345, "session": {"vs": 0, "camscore": 99}}\<close>. In
  general, when the schema flattens to slots that are named by strings, occur once each
  and name no field like a group, and no row that is a sequence is longer than the list
  of slots, then decoding succeeds and gives one mapping for every row that is a sequence
  or a mapping, in input order: a row that is a mapping is passed through unchanged, and
  a row that is a sequence becomes a mapping that holds each item at the slot of its
  position, directly under the field name for a slot with no group and under the
  subfield name inside the mapping under the group key for a slot with a group.
\<close>

theorem C6_rows_decoded_slot_by_slot:
  "process_list (JList
      [JList [JStr (ascii ''uid''),
              JDict [(JStr (ascii ''session''),
                      JList [JStr (ascii ''vs''), JStr (ascii ''camscore'')])]],
       JList [JInt 12345, JInt 0, JInt 99]])
   = Inr (JList
      [JDict [(JStr (ascii ''uid''), JInt 12345),
              (JStr (ascii ''session''),
               JDict [(JStr (ascii ''vs''), JInt 0),
                      (JStr (ascii ''camscore''), JInt 99)])]])
   \<and> (schema_map_of schema = Inr sm \<and> wf_schema_map sm \<and> list_all (fits sm) records \<longrightarrow>
        (\<exists>result. process_list (JList (schema # records)) = Inr (JList result)
           \<and> list_all2 (row_decoded sm) (filter is_row records) result))"
proof (intro conjI impI)
  show "process_list (JList
      [JList [JStr (ascii ''uid''),
              JDict [(JStr (ascii ''session''),
                      JList [JStr (ascii ''vs''), JStr (ascii ''camscore'')])]],
       JList [JInt 12345, JInt 0, JInt 99]])
   = Inr (JList
      [JDict [(JStr (ascii ''uid''), JInt 12345),
              (JStr (ascii ''session''),
               JDict [(JStr (ascii ''vs''), JInt 0),
                      (JStr (ascii ''camscore''), JInt 99)])]])"
    by (simp add: schema_map_of_def dict_setdefault_def)
next
  assume a: "schema_map_of schema = Inr sm \<and> wf_schema_map sm \<and> list_all (fits sm) records"
  then obtain result where "decode_rows sm records = Inr result"
    and "list_all2 (row_decoded sm) (filter is_row records) result"
    using decode_rows_spec [of sm records] by blast
  with a show "\<exists>result. process_list (JList (schema # records)) = Inr (JList result)
           \<and> list_all2 (row_decoded sm) (filter is_row records) result"
    by simp
qed

theorem C6_rows_decoded_slot_by_slot_witness:
  "\<exists>result.
     process_list (JList
       (JList [JStr (ascii ''uid''),
               JDict [(JStr (ascii ''session''),
                       JList [JStr (ascii ''vs''), JStr (ascii ''camscore'')])]]
        # [JList [JInt 12345, JInt 0, JInt 99],
           JDict [(JStr (ascii ''uid''), JInt 7)],
           JInt 3,
           JList [JInt 8]]))
     = Inr (JList result)
     \<and> list_all2
         (row_decoded
            [[JStr (ascii ''uid'')],
             [JStr (ascii ''session''), JStr (ascii ''vs'')],
             [JStr (ascii ''session''), JStr (ascii ''camscore'')]])
         (filter is_row
            [JList [JInt 12345, JInt 0, JInt 99],
             JDict [(JStr (ascii ''uid''), JInt 7)],
             JInt 3,
             JList [JInt 8]])
         result"
proof -
  let ?schema = "JList [JStr (ascii ''uid''),
               JDict [(JStr (ascii ''session''),
                       JList [JStr (ascii ''vs''), JStr (ascii ''camscore'')])]]"
  let ?sm = "[[JStr (ascii ''uid'')],
             [JStr (ascii ''session''), JStr (ascii ''vs'')],
             [JStr (ascii ''session''), JStr (ascii ''camscore'')]]"
  let ?records = "[JList [JInt 12345, JInt 0, JInt 99],
           JDict [(JStr (ascii ''uid''), JInt 7)],
           JInt 3,
           JList [JInt 8]]"
  have 1: "schema_map_of ?schema = Inr ?sm"
    by (simp add: schema_map_of_def)
  have 2: "wf_schema_map ?sm"
    by (simp add: wf_schema_map_def apart_def)
  have 3: "list_all (fits ?sm) ?records"
    by simp
  from 1 2 3 C6_rows_decoded_slot_by_slot [of ?schema ?sm ?records]
  show ?thesis
    by blast
qed

section \<open>Facts about the wire format and the decoder\<close>

lemma split_256: "(x::int) mod (m * 256) = m * (x div m mod 256) + x mod m"
  by (rule zmod_zmult2_eq) simp

lemma be_value:
  "(v div 16777216 mod 256) * 16777216 + (v div 65536 mod 256) * 65536
     + (v div 256 mod 256) * 256 + v mod 256 = (v::int) mod 4294967296"
proof -
  have a: "v mod 4294967296 = 16777216 * (v div 16777216 mod 256) + v mod 16777216"
    using split_256 [of v 16777216] by simp
  have b: "v mod 16777216 = 65536 * (v div 65536 mod 256) + v mod 65536"
    using split_256 [of v 65536] by simp
  have c: "v mod 65536 = 256 * (v div 256 mod 256) + v mod 256"
    using split_256 [of v 256] by simp
  show ?thesis
    unfolding a b c by simp
qed


lemma uint_byte: "uint (word_of_int x :: byte) = x mod 256"
  by (simp add: uint_word_of_int)

lemma foldl_i32_bytes:
  "foldl (\<lambda>a b. a * 256 + uint b) 0 (i32_bytes v) = v mod 4294967296"
proof -
  have "foldl (\<lambda>a b. a * 256 + uint b) 0 (i32_bytes v) =
    (v div 16777216 mod 256) * 16777216 + (v div 65536 mod 256) * 65536
     + (v div 256 mod 256) * 256 + v mod 256"
    unfolding i32_bytes_def foldl.simps uint_byte by (simp only: algebra_simps)
  then show ?thesis
    by (simp only: be_value)
qed


lemma unpack_i32_bytes: "is_i32 v \<Longrightarrow> unpack_i32 (i32_bytes v) = v"
proof -
  assume r: "is_i32 v"
  then have lo: "- 2147483648 \<le> v" and hi: "v < 2147483648"
    by (simp_all add: is_i32_def)
  have un: "unpack_i32 (i32_bytes v) =
      (if v mod 4294967296 < 2147483648 then v mod 4294967296 else v mod 4294967296 - 4294967296)"
    unfolding unpack_i32_def foldl_i32_bytes Let_def ..
  show ?thesis
  proof (cases "0 \<le> v")
    case True
    with hi have "v mod 4294967296 = v"
      by (intro mod_pos_pos_trivial) simp_all
    with hi show ?thesis
      unfolding un by simp
  next
    case False
    have "v mod 4294967296 = (v + 4294967296) mod 4294967296"
      by simp
    also have "\<dots> = v + 4294967296"
      using lo False by (intro mod_pos_pos_trivial) simp_all
    finally have "v mod 4294967296 = v + 4294967296" .
    with lo show ?thesis
      unfolding un by simp
  qed
qed


lemma length_i32_bytes [simp]: "length (i32_bytes v) = 4"
  by (simp add: i32_bytes_def)

lemma is_i32_MAGIC [simp]: "is_i32 MAGIC"
  by (simp add: is_i32_def MAGIC_def)

lemma frame_bytes_header: "frame_bytes f = header_bytes f @ f_payload f"
  by (simp add: frame_bytes_def header_bytes_def)

lemma length_header_bytes [simp]: "length (header_bytes f) = 28"
  by (simp add: header_bytes_def)

lemma header_field_append:
  "4 * i + 4 \<le> length buf \<Longrightarrow> header_field (buf @ ys) i = header_field buf i"
  by (simp add: header_field_def)

lemma header_fields:
  "header_field (header_bytes f) 0 = unpack_i32 (i32_bytes MAGIC)"
  "header_field (header_bytes f) 1 = unpack_i32 (i32_bytes (f_kind f))"
  "header_field (header_bytes f) 2 = unpack_i32 (i32_bytes (f_from f))"
  "header_field (header_bytes f) 3 = unpack_i32 (i32_bytes (f_to f))"
  "header_field (header_bytes f) 4 = unpack_i32 (i32_bytes (f_arg1 f))"
  "header_field (header_bytes f) 5 = unpack_i32 (i32_bytes (f_arg2 f))"
  "header_field (header_bytes f) 6 = unpack_i32 (i32_bytes (int (length (f_payload f))))"
  by (simp_all add: header_field_def header_bytes_def)


lemma frame_fields:
  assumes "frame_fits f"
  shows "header_field (header_bytes f @ t) 0 = MAGIC"
    and "header_field (header_bytes f @ t) (Suc 0) = f_kind f"
    and "header_field (header_bytes f @ t) 2 = f_from f"
    and "header_field (header_bytes f @ t) 3 = f_to f"
    and "header_field (header_bytes f @ t) 4 = f_arg1 f"
    and "header_field (header_bytes f @ t) 5 = f_arg2 f"
    and "header_field (header_bytes f @ t) 6 = int (length (f_payload f))"
  using assms header_fields [of f]
  by (simp_all add: header_field_append frame_fits_def unpack_i32_bytes)

text \<open>What the decoder makes of the bytes of a frame, whatever its payload.\<close>

lemma decode_frame_bytes:
  assumes v: "frame_fits f"
  shows "decode_frame loads (frame_bytes f @ rest) =
    (let msg = \<lambda>v. \<lparr>fctype = f_kind f, nfrom = f_from f, nto = f_to f, narg1 = f_arg1 f,
                      narg2 = f_arg2 f, smessage = v\<rparr>
     in if f_payload f = [] then Frame (msg JNone) rest
        else
          (case utf8_decode (f_payload f) of
             None \<Rightarrow> Failed UnicodeDecodeError
           | Some s \<Rightarrow>
               (case loads s of
                  Inr v \<Rightarrow> Frame (msg v) rest
                | Inl JSONDecodeError \<Rightarrow> Frame (msg (JStr s)) rest
                | Inl e \<Rightarrow> Failed e)))"
proof -
  let ?buf = "header_bytes f @ (f_payload f @ rest)"
  have buf: "frame_bytes f @ rest = ?buf"
    by (simp add: frame_bytes_header)
  note hf = frame_fields [OF v]
  show ?thesis
  proof (cases "f_payload f = []")
    case True
    then show ?thesis
      unfolding buf decode_frame_def Let_def
      by (simp add: hf py_slice_from_def)
  next
    case False
    then show ?thesis
      unfolding buf decode_frame_def Let_def
      by (simp add: hf py_slice_from_def nat_add_distrib
            cong: option.case_cong sum.case_cong exn.case_cong)
  qed
qed

lemma decode_frame_whole:
  assumes v: "valid_frame loads f"
  shows "decode_frame loads (frame_bytes f @ rest) = Frame (message_of loads f) rest"
proof -
  from v have fits: "frame_fits f" and pv: "payload_value loads (f_payload f) \<noteq> None"
    by (simp_all add: valid_frame_def)
  from pv show ?thesis
    unfolding decode_frame_bytes [OF fits] Let_def message_of_def payload_value_def
    by (auto split: option.splits sum.splits exn.splits if_splits)
qed

lemma decode_frame_prefix:
  assumes v: "valid_frame loads f" and p: "buf @ ys = frame_bytes f" and ne: "ys \<noteq> []"
  shows "decode_frame loads buf = Incomplete"
proof (cases "length buf < 28")
  case True
  then show ?thesis
    by (simp add: decode_frame_def)
next
  case False
  then have len: "28 \<le> length buf" by simp
  from p have "take 28 buf = header_bytes f"
    using len by (metis append_eq_append_conv_if frame_bytes_header length_header_bytes append_eq_conv_conj)
  then obtain t where b: "buf = header_bytes f @ t"
    by (metis append_take_drop_id)
  from p ne b have short: "length t < length (f_payload f)"
    by (auto simp: frame_bytes_header) (metis length_append less_add_same_cancel1 length_greater_0_conv)
  from v have "frame_fits f"
    by (simp add: valid_frame_def)
  note hf = frame_fields [OF this, of t]
  from short show ?thesis
    unfolding b decode_frame_def Let_def hf by auto
qed


lemma loop_incomplete:
  "decode_frame loads buf = Incomplete \<Longrightarrow> data_received_loop loads h c buf = Some (c, buf, False)"
  by (subst data_received_loop.simps) simp

lemma loop_failed:
  "decode_frame loads buf = Failed e \<Longrightarrow> data_received_loop loads h c buf = Some (c, buf, True)"
  by (subst data_received_loop.simps) simp

lemma loop_frame:
  "decode_frame loads buf = Frame p buf' \<Longrightarrow>
   data_received_loop loads h c buf =
     (case h c p of
        Returns c' \<Rightarrow> data_received_loop loads h c' buf'
      | Raises e c' \<Rightarrow> Some (c', buf', True))"
  by (subst data_received_loop.simps) simp

lemma decode_frame_Nil [simp]: "decode_frame loads [] = Incomplete"
  by (simp add: decode_frame_def)

lemma loop_frames:
  "list_all (valid_frame loads) fs \<Longrightarrow>
   data_received_loop loads record_packet seen (concat (map frame_bytes fs) @ t) =
   data_received_loop loads record_packet (seen @ map (message_of loads) fs) t"
proof (induction fs arbitrary: seen)
  case Nil
  then show ?case by simp
next
  case (Cons f fs)
  then have v: "valid_frame loads f" and vs: "list_all (valid_frame loads) fs"
    by simp_all
  have "data_received_loop loads record_packet seen (concat (map frame_bytes (f # fs)) @ t) =
      data_received_loop loads record_packet seen (frame_bytes f @ (concat (map frame_bytes fs) @ t))"
    by simp
  also have "\<dots> = data_received_loop loads record_packet (seen @ [message_of loads f])
      (concat (map frame_bytes fs) @ t)"
    by (simp add: loop_frame [OF decode_frame_whole [OF v]] record_packet_def)
  also have "\<dots> = data_received_loop loads record_packet
      ((seen @ [message_of loads f]) @ map (message_of loads) fs) t"
    by (rule Cons.IH [OF vs])
  finally show ?case by simp
qed

lemma feed_frame_bytewise:
  assumes v: "valid_frame loads f"
  shows "buf @ ys = frame_bytes f \<Longrightarrow> ys \<noteq> [] \<Longrightarrow>
    feed loads record_packet seen buf (map (\<lambda>b. [b]) ys @ chunks) =
    feed loads record_packet (seen @ [message_of loads f]) [] chunks"
proof (induction ys arbitrary: buf)
  case Nil
  then show ?case by simp
next
  case (Cons y ys)
  show ?case
  proof (cases "ys = []")
    case True
    with Cons.prems have whole: "buf @ [y] = frame_bytes f"
      by simp
    have "decode_frame loads (frame_bytes f) = Frame (message_of loads f) []"
      using decode_frame_whole [OF v, of "[]"] by simp
    then have "data_received loads record_packet seen buf [y] = Some (seen @ [message_of loads f], [], False)"
      unfolding data_received_def whole
      by (simp add: loop_frame record_packet_def loop_incomplete)
    with True show ?thesis
      by simp
  next
    case False
    from Cons.prems have p: "(buf @ [y]) @ ys = frame_bytes f"
      by simp
    have "data_received loads record_packet seen buf [y] = Some (seen, buf @ [y], False)"
      unfolding data_received_def
      by (rule loop_incomplete [OF decode_frame_prefix [OF v p False]])
    then show ?thesis
      using Cons.IH [OF p False] by simp
  qed
qed

lemma frame_bytes_not_Nil: "frame_bytes f \<noteq> []"
  by (simp add: frame_bytes_def i32_bytes_def)

lemma feed_frames_bytewise:
  "list_all (valid_frame loads) fs \<Longrightarrow>
   feed loads record_packet seen [] (map (\<lambda>b. [b]) (concat (map frame_bytes fs))) =
   Some (seen @ map (message_of loads) fs, [], False)"
proof (induction fs arbitrary: seen)
  case Nil
  then show ?case by simp
next
  case (Cons f fs)
  then have v: "valid_frame loads f" and vs: "list_all (valid_frame loads) fs"
    by simp_all
  have "feed loads record_packet seen [] (map (\<lambda>b. [b]) (concat (map frame_bytes (f # fs)))) =
      feed loads record_packet seen []
        (map (\<lambda>b. [b]) (frame_bytes f) @ map (\<lambda>b. [b]) (concat (map frame_bytes fs)))"
    by simp
  also have "\<dots> = feed loads record_packet (seen @ [message_of loads f]) []
        (map (\<lambda>b. [b]) (concat (map frame_bytes fs)))"
    by (rule feed_frame_bytewise [OF v]) (simp_all add: frame_bytes_not_Nil)
  also have "\<dots> = Some ((seen @ [message_of loads f]) @ map (message_of loads) fs, [], False)"
    by (rule Cons.IH [OF vs])
  finally show ?case by simp
qed


section \<open>Properties of the frame decoder\<close>

lemma sample_frames_valid:
  "valid_frame sample_loads chat_frame" "valid_frame sample_loads login_frame"
  "valid_frame sample_loads cut_frame"
  by (simp_all add: valid_frame_def frame_fits_def is_i32_def chat_frame_def login_frame_def
        cut_frame_def payload_value_def sample_loads_def decimal_def cont_def low6_def)

text \<open>
  C2: for every stream that is a concatenation of valid frames, delivering it one byte
  at a time gives the same messages, in the same order, as delivering it in one call,
  namely the messages of the frames; and a buffer that holds less than a header, or a
  header and fewer payload bytes than the header announces, decodes nothing and is kept
  as it is.
\<close>

theorem C2_bytewise_equals_whole:
  "(list_all (valid_frame loads) fs \<longrightarrow>
      feed loads record_packet seen [] (map (\<lambda>b. [b]) (concat (map frame_bytes fs)))
        = data_received loads record_packet seen [] (concat (map frame_bytes fs))
      \<and> data_received loads record_packet seen [] (concat (map frame_bytes fs))
        = Some (seen @ map (message_of loads) fs, [], False))
   \<and> (length buffer < 28 \<longrightarrow>
        data_received_loop loads handle client buffer = Some (client, buffer, False))
   \<and> (28 \<le> length buffer \<and> header_field buffer 0 = MAGIC
        \<and> int (length buffer) < 28 + header_field buffer 6 \<longrightarrow>
        data_received_loop loads handle client buffer = Some (client, buffer, False))"
proof (intro conjI impI)
  assume v: "list_all (valid_frame loads) fs"
  have whole: "data_received loads record_packet seen [] (concat (map frame_bytes fs))
        = Some (seen @ map (message_of loads) fs, [], False)"
    using loop_frames [OF v, of seen "[]"]
    by (simp add: data_received_def loop_incomplete)
  then show "data_received loads record_packet seen [] (concat (map frame_bytes fs))
        = Some (seen @ map (message_of loads) fs, [], False)" .
  from whole feed_frames_bytewise [OF v, of seen]
  show "feed loads record_packet seen [] (map (\<lambda>b. [b]) (concat (map frame_bytes fs)))
        = data_received loads record_packet seen [] (concat (map frame_bytes fs))"
    by simp
next
  assume "length buffer < 28"
  then have "decode_frame loads buffer = Incomplete"
    by (simp add: decode_frame_def)
  then show "data_received_loop loads handle client buffer = Some (client, buffer, False)"
    by (rule loop_incomplete)
next
  assume "28 \<le> length buffer \<and> header_field buffer 0 = MAGIC
        \<and> int (length buffer) < 28 + header_field buffer 6"
  then have "decode_frame loads buffer = Incomplete"
    by (auto simp: decode_frame_def Let_def)
  then show "data_received_loop loads handle client buffer = Some (client, buffer, False)"
    by (rule loop_incomplete)
qed

theorem C2_bytewise_equals_whole_witness:
  "feed sample_loads record_packet [] []
      (map (\<lambda>b. [b]) (concat (map frame_bytes [chat_frame, login_frame])))
     = data_received sample_loads record_packet [] []
         (concat (map frame_bytes [chat_frame, login_frame]))
   \<and> data_received sample_loads record_packet [] []
         (concat (map frame_bytes [chat_frame, login_frame]))
     = Some (map (message_of sample_loads) [chat_frame, login_frame], [], False)
   \<and> data_received_loop sample_loads record_packet [] [1, 2, 3] = Some ([], [1, 2, 3], False)
   \<and> data_received_loop sample_loads record_packet [] (header_bytes chat_frame @ [104])
     = Some ([], header_bytes chat_frame @ [104], False)"
proof -
  have 1: "list_all (valid_frame sample_loads) [chat_frame, login_frame]"
    by (simp add: sample_frames_valid)
  have 2: "length [1, 2, 3 :: byte] < 28"
    by simp
  have "frame_fits chat_frame"
    using sample_frames_valid(1) by (simp add: valid_frame_def)
  from frame_fields(1,7) [OF this, of "[104]"]
  have 3: "28 \<le> length (header_bytes chat_frame @ [104])
      \<and> header_field (header_bytes chat_frame @ [104]) 0 = MAGIC
      \<and> int (length (header_bytes chat_frame @ [104]))
          < 28 + header_field (header_bytes chat_frame @ [104]) 6"
    by (simp add: chat_frame_def)
  from 1 2 3
    C2_bytewise_equals_whole [of sample_loads "[chat_frame, login_frame]" "[]" "[1, 2, 3]"
      record_packet "[]"]
    C2_bytewise_equals_whole [of sample_loads "[]" "[]" "header_bytes chat_frame @ [104]"
      record_packet "[]"]
  show ?thesis
    by simp
qed


text \<open>
  The loop need not end. When a turn hands a packet to the client and leaves the buffer
  as it was, and the client does not raise, the next turn does the same. A header that
  announces the payload length \<open>-28\<close> is such a buffer: the slice
  \<^verbatim>\<open>self.buffer[packet_size+spayload:]\<close> is the whole buffer.
\<close>

lemma loop_never_returns:
  assumes d: "decode_frame loads buffer = Frame p buffer"
    and h: "\<And>c. \<exists>c'. handle c p = Returns c'"
  shows "data_received_loop loads handle client buffer = None"
proof (rule ccontr)
  assume "data_received_loop loads handle client buffer \<noteq> None"
  then obtain r where r: "data_received_loop loads handle client buffer = Some r"
    by auto
  have "loads = loads \<and> handle = handle \<and> buffer = buffer \<longrightarrow> False"
  proof (rule data_received_loop.raw_induct
      [where P = "\<lambda>l hh cl bf y. l = loads \<and> hh = handle \<and> bf = buffer \<longrightarrow> False", OF _ r])
    fix f :: "(ustr \<Rightarrow> exn + jvalue) \<Rightarrow> ('a \<Rightarrow> packet \<Rightarrow> 'a outcome) \<Rightarrow> 'a \<Rightarrow> byte list
        \<Rightarrow> ('a \<times> byte list \<times> bool) option"
    fix l hh cl bf y
    assume IH: "\<And>hh cl bf b y. f hh cl bf b = Some y \<Longrightarrow>
        hh = loads \<and> cl = handle \<and> b = buffer \<longrightarrow> False"
      and step: "(case decode_frame l bf of
          Incomplete \<Rightarrow> Some (cl, bf, False)
        | Failed e \<Rightarrow> Some (cl, bf, True)
        | Frame p buffer' \<Rightarrow>
            (case hh cl p of
               Returns client' \<Rightarrow> f l hh client' buffer'
             | Raises e client' \<Rightarrow> Some (client', buffer', True))) = Some y"
    show "l = loads \<and> hh = handle \<and> bf = buffer \<longrightarrow> False"
    proof
      assume eq: "l = loads \<and> hh = handle \<and> bf = buffer"
      from h [of cl] obtain c' where "handle cl p = Returns c'"
        by blast
      with step d eq have "f loads handle c' buffer = Some y"
        by simp
      from IH [OF this] show False
        by simp
    qed
  qed
  then show False
    by simp
qed


lemma negative_length_loops:
  "data_received_loop loads record_packet seen
     (i32_bytes MAGIC @ i32_bytes 0 @ i32_bytes 0 @ i32_bytes 0 @ i32_bytes 0 @ i32_bytes 0
      @ i32_bytes (- 28)) = None"
proof -
  let ?buf = "i32_bytes MAGIC @ i32_bytes 0 @ i32_bytes 0 @ i32_bytes 0 @ i32_bytes 0
      @ i32_bytes 0 @ i32_bytes (- 28)"
  have m: "header_field ?buf 0 = MAGIC"
    by (simp add: header_field_def unpack_i32_bytes)
  have n: "header_field ?buf 6 = - 28"
    by (simp add: header_field_def unpack_i32_bytes is_i32_def)
  have "decode_frame loads ?buf =
      Frame \<lparr>fctype = header_field ?buf 1, nfrom = header_field ?buf 2,
             nto = header_field ?buf 3, narg1 = header_field ?buf 4,
             narg2 = header_field ?buf 5, smessage = JNone\<rparr> ?buf"
    unfolding decode_frame_def Let_def m n
    by (simp add: py_slice_from_def)
  then show ?thesis
    by (rule loop_never_returns) (simp add: record_packet_def)
qed

text \<open>
  When the payload of a complete frame decodes as UTF-8 and \<^verbatim>\<open>json.loads\<close> raises
  \<^verbatim>\<open>JSONDecodeError\<close> on the text, the decoder builds the packet with the text itself as
  its payload, cuts the frame off the buffer and hands the packet to the client. It goes
  on with the rest of the buffer if the client returns, and stops the loop if the client
  raises on the packet.
\<close>

lemma invalid_json_kept_as_text:
  "28 \<le> length buffer \<and> header_field buffer 0 = MAGIC \<and> 0 < header_field buffer 6
   \<and> 28 + header_field buffer 6 \<le> int (length buffer)
   \<and> utf8_decode (take (nat (header_field buffer 6)) (drop 28 buffer)) = Some s
   \<and> loads s = Inl JSONDecodeError \<longrightarrow>
   decode_frame loads buffer =
     Frame \<lparr>fctype = header_field buffer 1, nfrom = header_field buffer 2,
            nto = header_field buffer 3, narg1 = header_field buffer 4,
            narg2 = header_field buffer 5, smessage = JStr s\<rparr>
       (drop (28 + nat (header_field buffer 6)) buffer)
   \<and> data_received_loop loads handle client buffer =
       (case handle client
               \<lparr>fctype = header_field buffer 1, nfrom = header_field buffer 2,
                nto = header_field buffer 3, narg1 = header_field buffer 4,
                narg2 = header_field buffer 5, smessage = JStr s\<rparr> of
          Returns client' \<Rightarrow>
            data_received_loop loads handle client' (drop (28 + nat (header_field buffer 6)) buffer)
        | Raises e client' \<Rightarrow>
            Some (client', drop (28 + nat (header_field buffer 6)) buffer, True))"
proof (intro impI)
  assume a: "28 \<le> length buffer \<and> header_field buffer 0 = MAGIC \<and> 0 < header_field buffer 6
   \<and> 28 + header_field buffer 6 \<le> int (length buffer)
   \<and> utf8_decode (take (nat (header_field buffer 6)) (drop 28 buffer)) = Some s
   \<and> loads s = Inl JSONDecodeError"
  then have d: "decode_frame loads buffer =
     Frame \<lparr>fctype = header_field buffer 1, nfrom = header_field buffer 2,
            nto = header_field buffer 3, narg1 = header_field buffer 4,
            narg2 = header_field buffer 5, smessage = JStr s\<rparr>
       (drop (28 + nat (header_field buffer 6)) buffer)"
    by (simp add: decode_frame_def Let_def py_slice_from_def nat_add_distrib)
  from d loop_frame [OF d, of handle client]
  show "decode_frame loads buffer =
     Frame \<lparr>fctype = header_field buffer 1, nfrom = header_field buffer 2,
            nto = header_field buffer 3, narg1 = header_field buffer 4,
            narg2 = header_field buffer 5, smessage = JStr s\<rparr>
       (drop (28 + nat (header_field buffer 6)) buffer)
   \<and> data_received_loop loads handle client buffer =
       (case handle client
               \<lparr>fctype = header_field buffer 1, nfrom = header_field buffer 2,
                nto = header_field buffer 3, narg1 = header_field buffer 4,
                narg2 = header_field buffer 5, smessage = JStr s\<rparr> of
          Returns client' \<Rightarrow>
            data_received_loop loads handle client' (drop (28 + nat (header_field buffer 6)) buffer)
        | Raises e client' \<Rightarrow>
            Some (client', drop (28 + nat (header_field buffer 6)) buffer, True))"
    by simp
qed

lemma cut_frame_kept_as_text:
  "decode_frame sample_loads (frame_bytes cut_frame) =
     Frame \<lparr>fctype = 5, nfrom = 7, nto = 0, narg1 = 0, narg2 = 0,
            smessage = JStr [123, 34, 97, 34, 58]\<rparr> []
   \<and> data_received_loop sample_loads record_packet [] (frame_bytes cut_frame) =
       Some ([\<lparr>fctype = 5, nfrom = 7, nto = 0, narg1 = 0, narg2 = 0,
               smessage = JStr [123, 34, 97, 34, 58]\<rparr>], [], False)"
proof -
  have fits: "frame_fits cut_frame"
    using sample_frames_valid(3) by (simp add: valid_frame_def)
  note hf = frame_fields [OF fits, of "f_payload cut_frame", folded frame_bytes_header]
  have len: "length (frame_bytes cut_frame) = 33"
    by (simp add: frame_bytes_header) (simp add: cut_frame_def)
  have pay: "drop 28 (frame_bytes cut_frame) = [123, 34, 97, 34, 58]"
    by (simp add: frame_bytes_header) (simp add: cut_frame_def)
  have hyp: "28 \<le> length (frame_bytes cut_frame)
     \<and> header_field (frame_bytes cut_frame) 0 = MAGIC
     \<and> 0 < header_field (frame_bytes cut_frame) 6
     \<and> 28 + header_field (frame_bytes cut_frame) 6 \<le> int (length (frame_bytes cut_frame))
     \<and> utf8_decode (take (nat (header_field (frame_bytes cut_frame) 6))
          (drop 28 (frame_bytes cut_frame))) = Some [123, 34, 97, 34, 58]
     \<and> sample_loads [123, 34, 97, 34, 58] = Inl JSONDecodeError"
    unfolding hf len pay
    by (simp add: cut_frame_def sample_loads_def decimal_def)
  from invalid_json_kept_as_text [of "frame_bytes cut_frame" "[123, 34, 97, 34, 58]"
      sample_loads record_packet "[]"] hyp
  have "decode_frame sample_loads (frame_bytes cut_frame) =
     Frame \<lparr>fctype = header_field (frame_bytes cut_frame) 1,
            nfrom = header_field (frame_bytes cut_frame) 2,
            nto = header_field (frame_bytes cut_frame) 3,
            narg1 = header_field (frame_bytes cut_frame) 4,
            narg2 = header_field (frame_bytes cut_frame) 5,
            smessage = JStr [123, 34, 97, 34, 58]\<rparr>
       (drop (28 + nat (header_field (frame_bytes cut_frame) 6)) (frame_bytes cut_frame))"
    by blast
  then have d: "decode_frame sample_loads (frame_bytes cut_frame) =
     Frame \<lparr>fctype = 5, nfrom = 7, nto = 0, narg1 = 0, narg2 = 0,
            smessage = JStr [123, 34, 97, 34, 58]\<rparr> []"
    using hf len by (simp add: cut_frame_def)
  show ?thesis
    by (simp add: d loop_frame [OF d] record_packet_def loop_incomplete)
qed

text \<open>
  C4, as stated: a frame with a wrong magic forces a disconnect followed by a reconnect,
  rather than halting all processing. The failed \<^verbatim>\<open>assert\<close> is caught with every other
  exception, and the handler stops the event loop and leaves. Here 28 zero bytes reach a
  connected client: the loop is stopped, no timer for a reconnect is set, no
  disconnect is announced, and the transport is still there.
\<close>

theorem C4_bad_magic_counterexample:
  "client_data_received sample_env guest_client [] (replicate 28 0)
     = Some (guest_client\<lparr>loop_stopped := True\<rparr>, replicate 28 0)
   \<and> loop_stopped (guest_client\<lparr>loop_stopped := True\<rparr>)
   \<and> timers (guest_client\<lparr>loop_stopped := True\<rparr>) = []
   \<and> emitted (guest_client\<lparr>loop_stopped := True\<rparr>) = []
   \<and> transport (guest_client\<lparr>loop_stopped := True\<rparr>) = Some []"
proof -
  have "header_field (replicate 28 0) 0 = 0"
    by (simp add: header_field_def unpack_i32_def eval_nat_numeral)
  then have "decode_frame sample_loads (replicate 28 0) = Failed AssertionError"
    by (simp add: decode_frame_def MAGIC_def)
  then show ?thesis
    by (simp add: client_data_received_def data_received_def loop_failed guest_client_def
          new_client_def sample_env_def)
qed

text \<open>
  C4, amended: when the buffer holds a complete header whose magic differs from the
  constant, the decoder hands no message to the client, keeps every byte of the buffer,
  and stops the event loop, which halts all processing; it neither disconnects nor
  sets up a reconnect, and the client is otherwise unchanged.
\<close>

theorem C4_bad_magic_stops_the_loop:
  "28 \<le> length (buffer @ data) \<and> header_field (buffer @ data) 0 \<noteq> MAGIC \<longrightarrow>
   data_received loads handle client buffer data = Some (client, buffer @ data, True)
   \<and> client_data_received E c buffer data = Some (c\<lparr>loop_stopped := True\<rparr>, buffer @ data)"
proof (intro impI)
  assume "28 \<le> length (buffer @ data) \<and> header_field (buffer @ data) 0 \<noteq> MAGIC"
  then have "\<And>loads. decode_frame loads (buffer @ data) = Failed AssertionError"
    by (simp add: decode_frame_def)
  then show "data_received loads handle client buffer data = Some (client, buffer @ data, True)
   \<and> client_data_received E c buffer data = Some (c\<lparr>loop_stopped := True\<rparr>, buffer @ data)"
    by (simp add: client_data_received_def data_received_def loop_failed)
qed

theorem C4_bad_magic_stops_the_loop_witness:
  "data_received sample_loads record_packet [] (replicate 20 0) (replicate 8 0)
     = Some ([], replicate 20 0 @ replicate 8 0, True)
   \<and> client_data_received sample_env guest_client (replicate 20 0) (replicate 8 0)
     = Some (guest_client\<lparr>loop_stopped := True\<rparr>, replicate 20 0 @ replicate 8 0)"
proof -
  have "header_field (replicate 20 0 @ replicate 8 0) 0 = 0"
    by (simp add: header_field_def unpack_i32_def eval_nat_numeral)
  then have "28 \<le> length (replicate 20 (0::byte) @ replicate 8 0)
      \<and> header_field (replicate 20 0 @ replicate 8 0) 0 \<noteq> MAGIC"
    by (simp add: MAGIC_def)
  with C4_bad_magic_stops_the_loop [of "replicate 20 0" "replicate 8 0" sample_loads
      record_packet "[]" sample_env guest_client]
  show ?thesis
    by blast
qed

section \<open>Encoding a command and decoding it again\<close>

lemma unat_ascii: "c < 128 \<Longrightarrow> unat (of_nat c :: byte) = c"
  by (simp add: unat_of_nat)

lemma utf8_encode_ascii:
  "list_all (\<lambda>ch. ch < 128) s \<Longrightarrow> utf8_encode s = Inr (map of_nat s)"
  by (induction s) (simp_all add: utf8_encode_char_def)

lemma utf8_decode_ascii:
  "list_all (\<lambda>ch. ch < 128) s \<Longrightarrow> utf8_decode (map of_nat s) = Some s"
  by (induction s) (simp_all add: unat_ascii)

lemma pack_i32s_header:
  "frame_fits f \<Longrightarrow>
   pack_i32s [MAGIC, f_kind f, f_from f, f_to f, f_arg1 f, f_arg2 f, int (length (f_payload f))]
     = Inr (header_bytes f)"
  using is_i32_MAGIC
  by (simp add: frame_fits_def pack_i32_def is_i32_def header_bytes_def)

lemma tx_bytes_ascii:
  assumes "is_i32 kind" "is_i32 session" "is_i32 to" "is_i32 a1" "is_i32 a2"
    and "list_all (\<lambda>ch. ch < 128) s" and "length s < 2147483648"
  shows "tx_bytes kind session to a1 a2 (JStr s) =
     Inr (frame_bytes \<lparr>f_kind = kind, f_from = session, f_to = to, f_arg1 = a1, f_arg2 = a2,
                        f_payload = map of_nat s\<rparr>)"
proof -
  let ?f = "\<lparr>f_kind = kind, f_from = session, f_to = to, f_arg1 = a1, f_arg2 = a2,
                        f_payload = map of_nat s :: byte list\<rparr>"
  have fits: "frame_fits ?f"
    using assms by (simp add: frame_fits_def is_i32_def)
  from pack_i32s_header [OF fits] utf8_encode_ascii [OF assms(6)]
  show ?thesis
    by (simp add: tx_bytes_def frame_bytes_header)
qed


text \<open>
  The length that \<^verbatim>\<open>tx_cmd\<close> packs is the number of code points of the text, not the
  number of bytes of its encoding. The text \<open>U+00E9\<close> has one code point and two bytes,
  \<open>C3 A9\<close>; the frame announces one byte and carries \<open>C3\<close>, on which the decoder
  raises.
\<close>

lemma tx_cmd_cuts_non_ascii_text:
  "tx_bytes 50 0 0 0 0 (JStr [233]) =
     Inr (frame_bytes \<lparr>f_kind = 50, f_from = 0, f_to = 0, f_arg1 = 0, f_arg2 = 0,
                        f_payload = [195]\<rparr>)
   \<and> decode_frame loads
        (frame_bytes \<lparr>f_kind = 50, f_from = 0, f_to = 0, f_arg1 = 0, f_arg2 = 0,
                       f_payload = [195]\<rparr>) = Failed UnicodeDecodeError"
proof -
  let ?f = "\<lparr>f_kind = 50, f_from = 0, f_to = 0, f_arg1 = 0, f_arg2 = 0,
             f_payload = [195 :: byte]\<rparr>"
  have fits: "frame_fits ?f"
    by (simp add: frame_fits_def is_i32_def)
  have "utf8_encode [233] = Inr [195, 169]"
    by (simp add: utf8_encode_char_def)
  with pack_i32s_header [OF fits] have "tx_bytes 50 0 0 0 0 (JStr [233]) = Inr (frame_bytes ?f)"
    by (simp add: tx_bytes_def frame_bytes_header)
  moreover have "decode_frame loads (frame_bytes ?f) = Failed UnicodeDecodeError"
    using decode_frame_bytes [OF fits, of loads "[]"] by simp
  ultimately show ?thesis
    by simp
qed

text \<open>
  C1, as stated: the decoder gives back the payload that was encoded. The decoder parses
  the text of every payload as JSON and keeps the text only when that fails, so the text
  \<open>1\<close> comes back as the number 1.
\<close>

theorem C1_json_text_counterexample:
  "tx_cmd sample_env 50 0 0 0 (JStr (ascii ''1'')) guest_client =
     Returns (guest_client\<lparr>transport := Some
       [frame_bytes \<lparr>f_kind = 50, f_from = 0, f_to = 0, f_arg1 = 0, f_arg2 = 0,
                      f_payload = [49]\<rparr>]\<rparr>)
   \<and> decode_frame (json_loads sample_env)
        (frame_bytes \<lparr>f_kind = 50, f_from = 0, f_to = 0, f_arg1 = 0, f_arg2 = 0,
                       f_payload = [49]\<rparr>)
      = Frame \<lparr>fctype = 50, nfrom = 0, nto = 0, narg1 = 0, narg2 = 0, smessage = JInt 1\<rparr> []
   \<and> JInt 1 \<noteq> JStr (ascii ''1'')"
proof -
  let ?f = "\<lparr>f_kind = 50, f_from = 0, f_to = 0, f_arg1 = 0, f_arg2 = 0,
             f_payload = [49 :: byte]\<rparr>"
  have fits: "frame_fits ?f"
    by (simp add: frame_fits_def is_i32_def)
  have "tx_bytes 50 0 0 0 0 (JStr (ascii ''1'')) = Inr (frame_bytes ?f)"
    using tx_bytes_ascii [of 50 0 0 0 0 "ascii ''1''"]
    by (simp add: is_i32_def ascii_def)
  then have "tx_cmd sample_env 50 0 0 0 (JStr (ascii ''1'')) guest_client =
     Returns (guest_client\<lparr>transport := Some [frame_bytes ?f]\<rparr>)"
    by (simp add: tx_cmd_def sample_env_def guest_client_def new_client_def)
  moreover have "decode_frame (json_loads sample_env) (frame_bytes ?f)
      = Frame \<lparr>fctype = 50, nfrom = 0, nto = 0, narg1 = 0, narg2 = 0, smessage = JInt 1\<rparr> []"
    using decode_frame_bytes [OF fits, of "json_loads sample_env" "[]"]
    by (simp add: sample_env_def sample_loads_def decimal_def)
  ultimately show ?thesis
    by simp
qed

text \<open>
  C1, amended: take a command with a kind that is a member of \<^verbatim>\<open>FCTYPE\<close>, with kind, \<open>to\<close>,
  \<open>arg1\<close> and \<open>arg2\<close> of 32 bits, sent by a client that is connected (its transport is
  there) and has a session id of 32 bits, and with an ASCII text of fewer than \<open>2^31\<close>
  characters as payload that is empty, or on which \<^verbatim>\<open>json.loads\<close> returns a value or raises
  \<^verbatim>\<open>JSONDecodeError\<close>. Then \<^verbatim>\<open>tx_cmd\<close> writes one frame, of 28 bytes and one byte for each
  character, with the number of characters as payload length; and the decoder makes of
  these bytes, whatever follows them, a message with the same kind, \<open>to\<close>, \<open>arg1\<close> and
  \<open>arg2\<close>, the session id of the sender as \<open>from\<close>, and as payload: nothing when the text
  is empty, the value that \<^verbatim>\<open>json.loads\<close> returns when it returns one, and the text itself
  when \<^verbatim>\<open>json.loads\<close> raises \<^verbatim>\<open>JSONDecodeError\<close>. An absent payload is sent as the empty
  text, and the empty text as a header with payload length 0 and no byte after it.
\<close>

theorem C1_ascii_round_trip:
  "kind \<in> set (FCTYPE_members E) \<and> is_i32 kind \<and> is_i32 (session_id c) \<and> is_i32 to
   \<and> is_i32 a1 \<and> is_i32 a2 \<and> list_all (\<lambda>ch. ch < 128) s \<and> length s < 2147483648
   \<and> transport c = Some written
   \<and> (s = [] \<or> json_loads E s = Inl JSONDecodeError \<or> (\<exists>v. json_loads E s = Inr v)) \<longrightarrow>
   (\<exists>data.
      tx_cmd E kind to a1 a2 (JStr s) c = Returns (c\<lparr>transport := Some (written @ [data])\<rparr>)
      \<and> tx_cmd E kind to a1 a2 (if s = [] then JNone else JStr s) c
          = Returns (c\<lparr>transport := Some (written @ [data])\<rparr>)
      \<and> length data = 28 + length s
      \<and> header_field data 6 = int (length s)
      \<and> decode_frame (json_loads E) (data @ rest) =
          Frame \<lparr>fctype = kind, nfrom = session_id c, nto = to, narg1 = a1, narg2 = a2,
                 smessage = (if s = [] then JNone
                             else (case json_loads E s of Inr v \<Rightarrow> v | Inl e \<Rightarrow> JStr s))\<rparr>
            rest)"
proof (intro impI)
  assume a: "kind \<in> set (FCTYPE_members E) \<and> is_i32 kind \<and> is_i32 (session_id c) \<and> is_i32 to
   \<and> is_i32 a1 \<and> is_i32 a2 \<and> list_all (\<lambda>ch. ch < 128) s \<and> length s < 2147483648
   \<and> transport c = Some written
   \<and> (s = [] \<or> json_loads E s = Inl JSONDecodeError \<or> (\<exists>v. json_loads E s = Inr v))"
  let ?f = "\<lparr>f_kind = kind, f_from = session_id c, f_to = to, f_arg1 = a1, f_arg2 = a2,
             f_payload = map of_nat s :: byte list\<rparr>"
  from a have fits: "frame_fits ?f"
    by (simp add: frame_fits_def is_i32_def)
  from a have tx: "tx_bytes kind (session_id c) to a1 a2 (JStr s) = Inr (frame_bytes ?f)"
    by (intro tx_bytes_ascii) simp_all
  have tx0: "tx_bytes kind (session_id c) to a1 a2 (if s = [] then JNone else JStr s)
      = Inr (frame_bytes ?f)"
  proof (cases "s = []")
    case True
    have "tx_bytes kind (session_id c) to a1 a2 JNone
        = tx_bytes kind (session_id c) to a1 a2 (JStr [])"
      by (simp add: tx_bytes_def)
    with True tx show ?thesis
      by simp
  next
    case False
    with tx show ?thesis
      by simp
  qed
  from a have dec: "utf8_decode (map of_nat s) = Some s"
    by (intro utf8_decode_ascii) simp
  from a have parsed: "s = [] \<or> json_loads E s = Inl JSONDecodeError \<or> (\<exists>v. json_loads E s = Inr v)"
    by simp
  have 1: "tx_cmd E kind to a1 a2 (JStr s) c
      = Returns (c\<lparr>transport := Some (written @ [frame_bytes ?f])\<rparr>)"
    using a tx by (simp add: tx_cmd_def)
  have 2: "tx_cmd E kind to a1 a2 (if s = [] then JNone else JStr s) c
      = Returns (c\<lparr>transport := Some (written @ [frame_bytes ?f])\<rparr>)"
    using a tx0 by (simp add: tx_cmd_def)
  have 3: "length (frame_bytes ?f) = 28 + length s"
    by (simp add: frame_bytes_header)
  have 4: "header_field (frame_bytes ?f) 6 = int (length s)"
    using frame_fields(7) [OF fits, of "map of_nat s"] by (simp add: frame_bytes_header)
  have 5: "decode_frame (json_loads E) (frame_bytes ?f @ rest) =
          Frame \<lparr>fctype = kind, nfrom = session_id c, nto = to, narg1 = a1, narg2 = a2,
                 smessage = (if s = [] then JNone
                             else (case json_loads E s of Inr v \<Rightarrow> v | Inl e \<Rightarrow> JStr s))\<rparr>
            rest"
    unfolding decode_frame_bytes [OF fits] Let_def
    using parsed by (auto simp add: dec)
  from 1 2 3 4 5 show "\<exists>data.
      tx_cmd E kind to a1 a2 (JStr s) c = Returns (c\<lparr>transport := Some (written @ [data])\<rparr>)
      \<and> tx_cmd E kind to a1 a2 (if s = [] then JNone else JStr s) c
          = Returns (c\<lparr>transport := Some (written @ [data])\<rparr>)
      \<and> length data = 28 + length s
      \<and> header_field data 6 = int (length s)
      \<and> decode_frame (json_loads E) (data @ rest) =
          Frame \<lparr>fctype = kind, nfrom = session_id c, nto = to, narg1 = a1, narg2 = a2,
                 smessage = (if s = [] then JNone
                             else (case json_loads E s of Inr v \<Rightarrow> v | Inl e \<Rightarrow> JStr s))\<rparr>
            rest"
    by blast
qed

theorem C1_ascii_round_trip_witness:
  "\<exists>data.
      tx_cmd sample_env 50 100012345 0 0 (JStr (ascii ''hello'')) guest_client
        = Returns (guest_client\<lparr>transport := Some ([] @ [data])\<rparr>)
      \<and> length data = 28 + length (ascii ''hello'')
      \<and> decode_frame (json_loads sample_env) (data @ []) =
          Frame \<lparr>fctype = 50, nfrom = session_id guest_client, nto = 100012345, narg1 = 0,
                 narg2 = 0, smessage = JStr (ascii ''hello'')\<rparr> []"
proof -
  have rej: "json_loads sample_env (ascii ''hello'') = Inl JSONDecodeError"
    by (simp add: sample_env_def sample_loads_def decimal_def ascii_def)
  have hyp: "50 \<in> set (FCTYPE_members sample_env) \<and> is_i32 50
      \<and> is_i32 (session_id guest_client) \<and> is_i32 100012345 \<and> is_i32 0 \<and> is_i32 0
      \<and> list_all (\<lambda>ch. ch < 128) (ascii ''hello'') \<and> length (ascii ''hello'') < 2147483648
      \<and> transport guest_client = Some []
      \<and> (ascii ''hello'' = [] \<or> json_loads sample_env (ascii ''hello'') = Inl JSONDecodeError
         \<or> (\<exists>v. json_loads sample_env (ascii ''hello'') = Inr v))"
    unfolding rej
    by (simp add: sample_env_def is_i32_def guest_client_def new_client_def ascii_def)
  have ne: "ascii ''hello'' \<noteq> []"
    by (simp add: ascii_def)
  from C1_ascii_round_trip [of 50 sample_env guest_client 100012345 0 0 "ascii ''hello''" "[]" "[]"]
    hyp
  obtain data where
    "tx_cmd sample_env 50 100012345 0 0 (JStr (ascii ''hello'')) guest_client
        = Returns (guest_client\<lparr>transport := Some ([] @ [data])\<rparr>)"
    "length data = 28 + length (ascii ''hello'')"
    "decode_frame (json_loads sample_env) (data @ []) =
          Frame \<lparr>fctype = 50, nfrom = session_id guest_client, nto = 100012345, narg1 = 0,
                 narg2 = 0,
                 smessage = (if ascii ''hello'' = [] then JNone
                             else (case json_loads sample_env (ascii ''hello'') of
                                     Inr v \<Rightarrow> v | Inl e \<Rightarrow> JStr (ascii ''hello'')))\<rparr> []"
    by blast
  then show ?thesis
    unfolding rej using ne by auto
qed
section \<open>Properties of the client\<close>

subsection \<open>The environment and the client of the examples\<close>

lemma sample_fields:
  "json_loads sample_env = sample_loads"
  "registry_call sample_env = (\<lambda>calls call. Inr True)"
  "FCTYPE_NULL sample_env = 0" "FCTYPE_LOGIN sample_env = 1" "FCTYPE_DETAILS sample_env = 5"
  "FCTYPE_ROOMHELPER sample_env = 33" "FCTYPE_SESSIONSTATE sample_env = 20"
  "FCTYPE_ADDFRIEND sample_env = 2" "FCTYPE_ADDIGNORE sample_env = 7"
  "FCTYPE_CMESG sample_env = 50" "FCTYPE_PMESG sample_env = 3"
  "FCTYPE_TXPROFILE sample_env = 61" "FCTYPE_USERNAMELOOKUP sample_env = 10"
  "FCTYPE_MYCAMSTATE sample_env = 43" "FCTYPE_MYWEBCAM sample_env = 44"
  "FCTYPE_TOKENINC sample_env = 6" "FCTYPE_JOINCHAN sample_env = 51"
  "FCTYPE_TAGS sample_env = 64" "FCTYPE_BOOKMARKS sample_env = 73"
  "FCTYPE_METRICS sample_env = 69" "FCTYPE_EXTDATA sample_env = 81"
  "FCTYPE_MANAGELIST sample_env = 14" "FCTYPE_TKX sample_env = 97"
  "FCCHAN_PART sample_env = 2" "FCWOPT_REDIS_JSON sample_env = 8192"
  "FCL_ROOMMATES sample_env = 12" "FCL_CAMS sample_env = 13" "FCL_FRIENDS sample_env = 1"
  "FCL_IGNORES sample_env = 2" "FCL_TAGS sample_env = 11" "FCLEVEL_MODEL sample_env = 4"
  by (simp_all add: sample_env_def)

lemma guest_fields:
  "username guest_client = JStr (ascii ''guest'')" "password guest_client = ascii ''guest''"
  "session_id guest_client = 0" "uid guest_client = None" "keepalive guest_client = False"
  "completed_models guest_client = False" "completed_tags guest_client = False"
  "manual_disconnect guest_client = False" "logged_in guest_client = False"
  "transport guest_client = Some []" "loop_stopped guest_client = False"
  "timers guest_client = []" "userQueryId guest_client = 20" "futures guest_client = []"
  "listeners guest_client = []" "emitted guest_client = []" "registry guest_client = []"
  by (simp_all add: guest_client_def new_client_def)

lemma emit_no_listeners:
  "listeners c = [] \<Longrightarrow> emit E kind arg c = Returns (c\<lparr>emitted := emitted c @ [(kind, arg)]\<rparr>)"
  by (simp add: emit_def Let_def)

lemma process_packet_login:
  "fctype p = FCTYPE_LOGIN E \<Longrightarrow> process_packet E p c = with_packet p (process_login p c)"
  by (simp add: process_packet_def)

subsection \<open>The login response\<close>

text \<open>
  The scenario from end to end: the frame of the login response for \<open>alice\<close> reaches a
  connected client.
\<close>

lemma alice_login_end_to_end:
  "client_data_received sample_env guest_client []
     (frame_bytes \<lparr>f_kind = 1, f_from = 0, f_to = 4242, f_arg1 = 0, f_arg2 = 555,
                   f_payload = [97, 108, 105, 99, 101]\<rparr>)
   = Some (guest_client\<lparr>session_id := 4242, uid := Some 555, username := JStr (ascii ''alice''),
             emitted := [(1, Some alice_login), (- 2, Some alice_login)]\<rparr>, [])"
proof -
  let ?f = "\<lparr>f_kind = 1, f_from = 0, f_to = 4242, f_arg1 = 0, f_arg2 = 555,
             f_payload = [97, 108, 105, 99, 101 :: byte]\<rparr>"
  have fits: "frame_fits ?f"
    by (simp add: frame_fits_def is_i32_def)
  have dec: "decode_frame (json_loads sample_env) (frame_bytes ?f) = Frame alice_login []"
    using decode_frame_bytes [OF fits, of "json_loads sample_env" "[]"]
    by (simp add: sample_fields sample_loads_def decimal_def alice_login_def ascii_def)
  have k: "fctype alice_login = FCTYPE_LOGIN sample_env"
    by (simp add: sample_fields alice_login_def)
  have pl: "process_login alice_login guest_client =
      Returns (guest_client\<lparr>session_id := 4242, uid := Some 555,
        username := JStr (ascii ''alice'')\<rparr>)"
    by (simp add: process_login_def alice_login_def)
  have "handle_packet_received sample_env guest_client alice_login =
      Returns (guest_client\<lparr>session_id := 4242, uid := Some 555,
        username := JStr (ascii ''alice''),
        emitted := [(1, Some alice_login), (- 2, Some alice_login)]\<rparr>)"
    unfolding handle_packet_received_def process_packet_login [OF k] pl
    by (simp add: with_packet_def emit_no_listeners guest_fields FCTYPE_ANY_def)
       (simp add: alice_login_def)
  with loop_frame [OF dec, of "handle_packet_received sample_env" guest_client]
  show ?thesis
    by (simp add: client_data_received_def data_received_def loop_incomplete)
qed


subsection \<open>Pending queries at a disconnect\<close>

lemma outcome_state_and_then:
  "outcome_state (and_then r f) = (case r of Returns s \<Rightarrow> outcome_state (f s) | Raises e s \<Rightarrow> s)"
  by (cases r) simp_all

lemma run_listeners_no_packet:
  "run_listeners E ls None c = (if ls = [] then Returns c else Raises TypeError c)"
proof (cases ls)
  case Nil
  then show ?thesis by simp
next
  case (Cons l ls')
  then show ?thesis by (cases l) simp
qed

lemma emit_no_packet:
  "outcome_state (emit E kind None c) = c\<lparr>emitted := emitted c @ [(kind, None)]\<rparr>"
  by (simp add: emit_def Let_def run_listeners_no_packet)

lemma tx_cmd_futures:
  "futures (outcome_state (tx_cmd E kind to a1 a2 smsg c)) = futures c"
  by (simp add: tx_cmd_def split: sum.splits option.splits)

lemma two_queries_fields:
  "futures two_queries = [(20, Pending), (21, Pending)]"
  "listeners two_queries = [(10, QueryHandler 20), (10, QueryHandler 21)]"
  "password two_queries = ascii ''guest''"
  "username two_queries = JStr (ascii ''guest'')"
  "manual_disconnect two_queries = False"
  "timers two_queries = []"
  unfolding two_queries_def query_user_def Let_def on_def tx_cmd_def
  by (simp_all add: sample_fields guest_fields)
     (simp_all add: sample_env_def tx_bytes_def pack_i32_def utf8_encode_char_def ascii_def
        MAGIC_def guest_fields)

lemma disconnect_keeps_queries:
  "futures (outcome_state (handle_disconnected E c)) = futures c
   \<and> listeners (outcome_state (handle_disconnected E c)) = listeners c"
proof -
  have reg: "outcome_state (case call_registry E ResetAll c6 of
                         (Inl e, c7) \<Rightarrow> Raises e c7
                       | (Inr _, c7) \<Rightarrow> Returns c7) = c6\<lparr>registry := registry c6 @ [ResetAll]\<rparr>" for c6
    by (simp add: call_registry_def split: sum.splits)
  have tail: "futures (outcome_state
        (and_then (emit E FCTYPE_CLIENT_DISCONNECTED None c5)
                (\<lambda>c6. case call_registry E ResetAll c6 of
                         (Inl e, c7) \<Rightarrow> Raises e c7
                       | (Inr _, c7) \<Rightarrow> Returns c7))) = futures c5
      \<and> listeners (outcome_state
        (and_then (emit E FCTYPE_CLIENT_DISCONNECTED None c5)
                (\<lambda>c6. case call_registry E ResetAll c6 of
                         (Inl e, c7) \<Rightarrow> Raises e c7
                       | (Inr _, c7) \<Rightarrow> Returns c7))) = listeners c5" for c5
  proof (cases "emit E FCTYPE_CLIENT_DISCONNECTED None c5")
    case (Returns c6)
    with emit_no_packet [of E FCTYPE_CLIENT_DISCONNECTED c5] show ?thesis
      by (simp add: reg)
  next
    case (Raises e c6)
    with emit_no_packet [of E FCTYPE_CLIENT_DISCONNECTED c5] show ?thesis
      by simp
  qed
  show ?thesis
  proof (cases "password c = ascii ''guest''")
    case False
    then show ?thesis
      unfolding handle_disconnected_def Let_def
      by (simp add: tail)
  next
    case True
    show ?thesis
    proof (cases "username c")
      case (JStr name)
      with True show ?thesis
        unfolding handle_disconnected_def Let_def
        by (simp add: tail)
    qed (use True in \<open>simp_all add: handle_disconnected_def\<close>)
  qed
qed

text \<open>
  C5, as stated: tearing the connection down fails every pending query. Nothing in
  \<^verbatim>\<open>handle_disconnected\<close> touches a future or a listener: after two queries and a
  disconnect both futures are still pending, their handlers are still registered, and
  the reconnect is set up.
\<close>

theorem C5_pending_queries_counterexample:
  "futures two_queries = [(20, Pending), (21, Pending)]
   \<and> (case handle_disconnected sample_env two_queries of
         Returns c \<Rightarrow>
           futures c = [(20, Pending), (21, Pending)]
           \<and> listeners c = [(10, QueryHandler 20), (10, QueryHandler 21)]
           \<and> timers c = [(30, Reconnect)]
       | Raises e c \<Rightarrow> False)"
proof -
  have "handle_disconnected sample_env two_queries =
      Returns (two_queries\<lparr>keepalive := False, completed_models := False,
        completed_tags := False, timers := [(30, Reconnect)], manual_disconnect := False,
        emitted := emitted two_queries @ [(- 5, None)],
        registry := registry two_queries @ [ResetAll]\<rparr>)"
    by (simp add: handle_disconnected_def Let_def two_queries_fields emit_def
          call_registry_def sample_fields FCTYPE_CLIENT_DISCONNECTED_def ascii_def)
  then show ?thesis
    by (simp add: two_queries_fields)
qed

text \<open>
  C5, amended: when the connection is torn down with N pending user queries
  outstanding, none of them is failed or resolved: \<^verbatim>\<open>handle_disconnected\<close> leaves every
  future as it is and every handler registered. A query made by \<^verbatim>\<open>query_user\<close> is
  pending from the call on.
\<close>

theorem C5_disconnect_leaves_queries_pending:
  "futures (outcome_state (handle_disconnected E c)) = futures c
   \<and> listeners (outcome_state (handle_disconnected E c)) = listeners c
   \<and> futures (outcome_state (query_user E user c)) = futures c @ [(userQueryId c, Pending)]"
proof -
  have "futures (outcome_state (query_user E user c)) = futures c @ [(userQueryId c, Pending)]"
    unfolding query_user_def Let_def
    by (cases user) (simp_all add: tx_cmd_futures on_def)
  with disconnect_keeps_queries [of E c] show ?thesis
    by simp
qed

subsection \<open>The login response and the connect call\<close>

lemma run_forever_stopped:
  "run_forever E c buffer chunks = Some c' \<Longrightarrow> loop_stopped c'"
  by (induction chunks arbitrary: c buffer) (auto split: if_splits option.splits)

lemma fresh_fields:
  "username fresh_guest = JStr (ascii ''guest'')" "password fresh_guest = ascii ''guest''"
  "session_id fresh_guest = 0" "keepalive fresh_guest = False" "timers fresh_guest = []"
  "listeners fresh_guest = []" "emitted fresh_guest = []" "loop_stopped fresh_guest = False"
  by (simp_all add: fresh_guest_def new_client_def)

text \<open>
  \<^verbatim>\<open>connect\<close> with the default credentials: the login command \<open>guest:guest\<close> is written,
  the keepalive and the event are scheduled, and the coroutine has returned.
\<close>

lemma connect_fresh_guest:
  "connect sample_env None None True fresh_guest =
     Returns (fresh_guest\<lparr>logged_in := True,
       transport := Some [frame_bytes \<lparr>f_kind = 1, f_from = 0, f_to = 0, f_arg1 = 20071025,
                                       f_arg2 = 0, f_payload = map of_nat (ascii ''guest:guest'')\<rparr>],
       keepalive := True, timers := [(120, PingLoop), (0, EmitConnected)]\<rparr>)"
proof -
  have t: "py_str sample_env (JStr (ascii ''guest'')) @ ascii '':'' @ ascii ''guest''
      = ascii ''guest:guest''"
    by (simp add: sample_env_def ascii_def)
  have m: "1 \<in> set (FCTYPE_members sample_env)"
    by (simp add: sample_env_def)
  have tx: "tx_bytes 1 0 0 20071025 0 (JStr (ascii ''guest:guest'')) =
     Inr (frame_bytes \<lparr>f_kind = 1, f_from = 0, f_to = 0, f_arg1 = 20071025,
                        f_arg2 = 0, f_payload = map of_nat (ascii ''guest:guest'')\<rparr>)"
    by (rule tx_bytes_ascii) (simp_all add: is_i32_def ascii_def)
  show ?thesis
    unfolding connect_def Let_def
    by (simp add: fresh_fields t tx_cmd_def m sample_fields tx)
qed

text \<open>
  The blocking call, when the first chunk that arrives is a login response with
  \<open>arg1 = 1\<close>: the decoder stops the loop, \<^verbatim>\<open>run_forever\<close> returns, and so does the call.
\<close>

lemma refused_login_run:
  "simple_connect sample_env None None True fresh_guest [frame_bytes refused_login_frame] =
     Some (Returns (fresh_guest\<lparr>logged_in := True,
       transport := Some [frame_bytes \<lparr>f_kind = 1, f_from = 0, f_to = 0, f_arg1 = 20071025,
                                       f_arg2 = 0, f_payload = map of_nat (ascii ''guest:guest'')\<rparr>],
       keepalive := True, timers := [(120, PingLoop), (0, EmitConnected)],
       emitted := [(- 3, None)], loop_stopped := True\<rparr>))"
proof -
  let ?c1 = "fresh_guest\<lparr>logged_in := True,
       transport := Some [frame_bytes \<lparr>f_kind = 1, f_from = 0, f_to = 0, f_arg1 = 20071025,
                                       f_arg2 = 0, f_payload = map of_nat (ascii ''guest:guest'')\<rparr>],
       keepalive := True, timers := [(120, PingLoop), (0, EmitConnected)]\<rparr>"
  let ?c2 = "?c1\<lparr>emitted := [(- 3, None)]\<rparr>"
  let ?p = "\<lparr>fctype = 1, nfrom = 0, nto = 0, narg1 = 1, narg2 = 0, smessage = JNone\<rparr>"
  have e: "outcome_state (emit sample_env FCTYPE_CLIENT_CONNECTED None ?c1) = ?c2"
    by (simp add: emit_no_packet fresh_fields FCTYPE_CLIENT_CONNECTED_def)
  have fits: "frame_fits refused_login_frame"
    by (simp add: frame_fits_def is_i32_def refused_login_frame_def)
  have dec: "decode_frame (json_loads sample_env) ([] @ frame_bytes refused_login_frame) = Frame ?p []"
    using decode_frame_bytes [OF fits, of "json_loads sample_env" "[]"]
    by (simp add: refused_login_frame_def)
  have k: "fctype ?p = FCTYPE_LOGIN sample_env"
    by (simp add: sample_fields)
  have hp: "handle_packet_received sample_env ?c2 ?p = Raises (Exception (ascii ''Login failed'')) ?c2"
    unfolding handle_packet_received_def process_packet_login [OF k]
    by (simp add: with_packet_def process_login_def)
  from loop_frame [OF dec, of "handle_packet_received sample_env" ?c2] hp
  have d: "client_data_received sample_env ?c2 [] (frame_bytes refused_login_frame)
      = Some (?c2\<lparr>loop_stopped := True\<rparr>, [])"
    by (simp add: client_data_received_def data_received_def)
  have ns: "\<not> loop_stopped ?c2"
    by (simp add: fresh_fields)
  show ?thesis
    unfolding simple_connect_def connect_fresh_guest
    by (simp add: e d ns)
qed

text \<open>
  C3, as stated: a login response with \<open>arg1\<close> other than 0 fails the connect call that
  is in flight. No connect call is in flight when a response is read: the coroutine
  \<^verbatim>\<open>connect\<close> has returned once the login command is written, and the blocking call of
  \<^verbatim>\<open>SimpleClient\<close> returns as well, without an exception, when the response with
  \<open>arg1 = 1\<close> has stopped the loop.
\<close>

theorem C3_refused_login_counterexample:
  "connect sample_env None None True fresh_guest =
     Returns (fresh_guest\<lparr>logged_in := True,
       transport := Some [frame_bytes \<lparr>f_kind = 1, f_from = 0, f_to = 0, f_arg1 = 20071025,
                                       f_arg2 = 0, f_payload = map of_nat (ascii ''guest:guest'')\<rparr>],
       keepalive := True, timers := [(120, PingLoop), (0, EmitConnected)]\<rparr>)
   \<and> simple_connect sample_env None None True fresh_guest [frame_bytes refused_login_frame] =
     Some (Returns (fresh_guest\<lparr>logged_in := True,
       transport := Some [frame_bytes \<lparr>f_kind = 1, f_from = 0, f_to = 0, f_arg1 = 20071025,
                                       f_arg2 = 0, f_payload = map of_nat (ascii ''guest:guest'')\<rparr>],
       keepalive := True, timers := [(120, PingLoop), (0, EmitConnected)],
       emitted := [(- 3, None)], loop_stopped := True\<rparr>))"
  using connect_fresh_guest refused_login_run by blast

text \<open>
  C3, amended: the login response with \<open>arg1 = 0\<close>, \<open>to = 4242\<close>, \<open>arg2 = 555\<close> and the
  payload \<open>alice\<close> sets the session id to 4242, the user id to 555 and the username to
  \<open>alice\<close>. For every login response with another \<open>arg1\<close>, \<^verbatim>\<open>_process_packet\<close> raises
  \<open>Login failed\<close> and changes nothing of the client, session id, user id and username
  included; the exception leaves \<^verbatim>\<open>handle_packet_received\<close> and is caught by the decoder,
  which stops the event loop and changes nothing else. It fails no connect call: when
  the coroutine \<^verbatim>\<open>connect\<close> has returned, whatever arrives afterwards, the blocking call
  of \<^verbatim>\<open>SimpleClient\<close>, if it returns, returns without an exception, with the loop stopped.
\<close>

theorem C3_login_response:
  "process_packet E
     \<lparr>fctype = FCTYPE_LOGIN E, nfrom = x, nto = 4242, narg1 = 0, narg2 = 555,
      smessage = JStr (ascii ''alice'')\<rparr> c
    = Returns (c\<lparr>session_id := 4242, uid := Some 555, username := JStr (ascii ''alice'')\<rparr>,
        \<lparr>fctype = FCTYPE_LOGIN E, nfrom = x, nto = 4242, narg1 = 0, narg2 = 555,
         smessage = JStr (ascii ''alice'')\<rparr>)
   \<and> (fctype p = FCTYPE_LOGIN E \<and> narg1 p \<noteq> 0 \<longrightarrow>
        process_packet E p c = Raises (Exception (ascii ''Login failed'')) (c, p)
        \<and> handle_packet_received E c p = Raises (Exception (ascii ''Login failed'')) c
        \<and> (decode_frame (json_loads E) (buffer @ data) = Frame p rest \<longrightarrow>
             client_data_received E c buffer data = Some (c\<lparr>loop_stopped := True\<rparr>, rest)))
   \<and> (connect E server_error connection_error login fresh = Returns linked
        \<and> simple_connect E server_error connection_error login fresh chunks = Some r \<longrightarrow>
        (\<exists>c2. r = Returns c2 \<and> loop_stopped c2))"
proof (intro conjI impI)
  show "process_packet E
     \<lparr>fctype = FCTYPE_LOGIN E, nfrom = x, nto = 4242, narg1 = 0, narg2 = 555,
      smessage = JStr (ascii ''alice'')\<rparr> c
    = Returns (c\<lparr>session_id := 4242, uid := Some 555, username := JStr (ascii ''alice'')\<rparr>,
        \<lparr>fctype = FCTYPE_LOGIN E, nfrom = x, nto = 4242, narg1 = 0, narg2 = 555,
         smessage = JStr (ascii ''alice'')\<rparr>)"
    by (simp add: process_packet_def with_packet_def process_login_def)
next
  assume a: "fctype p = FCTYPE_LOGIN E \<and> narg1 p \<noteq> 0"
  then show pp: "process_packet E p c = Raises (Exception (ascii ''Login failed'')) (c, p)"
    by (simp add: process_packet_def with_packet_def process_login_def)
  then show hp: "handle_packet_received E c p = Raises (Exception (ascii ''Login failed'')) c"
    by (simp add: handle_packet_received_def)
  assume "decode_frame (json_loads E) (buffer @ data) = Frame p rest"
  from loop_frame [OF this, of "handle_packet_received E" c] hp
  show "client_data_received E c buffer data = Some (c\<lparr>loop_stopped := True\<rparr>, rest)"
    by (simp add: client_data_received_def data_received_def)
next
  assume b: "connect E server_error connection_error login fresh = Returns linked
        \<and> simple_connect E server_error connection_error login fresh chunks = Some r"
  then have b1: "connect E server_error connection_error login fresh = Returns linked"
    and b2: "simple_connect E server_error connection_error login fresh chunks = Some r"
    by simp_all
  from b2 have "map_option Returns
      (run_forever E (outcome_state (emit E FCTYPE_CLIENT_CONNECTED None linked)) [] chunks) = Some r"
    unfolding simple_connect_def b1 by simp
  then obtain c2 where
    rf: "run_forever E (outcome_state (emit E FCTYPE_CLIENT_CONNECTED None linked)) [] chunks = Some c2"
    and r: "r = Returns c2"
    by auto
  from run_forever_stopped [OF rf] r show "\<exists>c2. r = Returns c2 \<and> loop_stopped c2"
    by simp
qed

theorem C3_login_response_witness:
  "process_packet sample_env
     \<lparr>fctype = 1, nfrom = 0, nto = 0, narg1 = 1, narg2 = 0, smessage = JNone\<rparr> guest_client
     = Raises (Exception (ascii ''Login failed''))
         (guest_client, \<lparr>fctype = 1, nfrom = 0, nto = 0, narg1 = 1, narg2 = 0, smessage = JNone\<rparr>)
   \<and> client_data_received sample_env guest_client []
        (frame_bytes \<lparr>f_kind = 1, f_from = 0, f_to = 0, f_arg1 = 1, f_arg2 = 0, f_payload = []\<rparr>)
     = Some (guest_client\<lparr>loop_stopped := True\<rparr>, [])
   \<and> (\<exists>c2. simple_connect sample_env None None True fresh_guest
               [frame_bytes refused_login_frame] = Some (Returns c2)
            \<and> loop_stopped c2)"
proof -
  let ?p = "\<lparr>fctype = 1, nfrom = 0, nto = 0, narg1 = 1, narg2 = 0, smessage = JNone\<rparr>"
  let ?f = "\<lparr>f_kind = 1, f_from = 0, f_to = 0, f_arg1 = 1, f_arg2 = 0, f_payload = [] :: byte list\<rparr>"
  let ?c1 = "fresh_guest\<lparr>logged_in := True,
       transport := Some [frame_bytes \<lparr>f_kind = 1, f_from = 0, f_to = 0, f_arg1 = 20071025,
                                       f_arg2 = 0, f_payload = map of_nat (ascii ''guest:guest'')\<rparr>],
       keepalive := True, timers := [(120, PingLoop), (0, EmitConnected)]\<rparr>"
  let ?r = "Returns (?c1\<lparr>emitted := [(- 3, None)], loop_stopped := True\<rparr>)"
  have fits: "frame_fits ?f"
    by (simp add: frame_fits_def is_i32_def)
  have hyp: "fctype ?p = FCTYPE_LOGIN sample_env \<and> narg1 ?p \<noteq> 0"
    by (simp add: sample_env_def)
  have dec: "decode_frame (json_loads sample_env) ([] @ frame_bytes ?f) = Frame ?p []"
    using decode_frame_bytes [OF fits, of "json_loads sample_env" "[]"] by simp
  have con: "connect sample_env None None True fresh_guest = Returns ?c1"
    by (rule connect_fresh_guest)
  have run: "simple_connect sample_env None None True fresh_guest
      [frame_bytes refused_login_frame] = Some ?r"
    by (rule refused_login_run)
  note inst = C3_login_response [where E = sample_env and x = 0 and c = guest_client
      and p = "?p" and buffer = "[]" and data = "frame_bytes ?f" and rest = "[]"
      and server_error = None and connection_error = None and login = True
      and fresh = fresh_guest and linked = "?c1"
      and chunks = "[frame_bytes refused_login_frame]" and r = "?r"]
  from inst hyp dec
  have 1: "process_packet sample_env ?p guest_client
       = Raises (Exception (ascii ''Login failed'')) (guest_client, ?p)"
    and 2: "client_data_received sample_env guest_client [] (frame_bytes ?f)
       = Some (guest_client\<lparr>loop_stopped := True\<rparr>, [])"
    by blast+
  from inst con run obtain c2 where "?r = Returns c2" and "loop_stopped c2"
    by blast
  with run have 3: "\<exists>c2. simple_connect sample_env None None True fresh_guest
               [frame_bytes refused_login_frame] = Some (Returns c2)
            \<and> loop_stopped c2"
    by blast
  from 1 2 3 show ?thesis
    by blast
qed

subsection \<open>The bulk lists and the flags of a connection\<close>

lemma get_and_merge_registry_only:
  "\<exists>calls. outcome_state (get_and_merge E u cr m c) = c\<lparr>registry := calls\<rparr>"
  unfolding get_and_merge_def call_registry_def
  by (auto split: sum.splits bool.splits)

lemma registry_only_trans:
  assumes "\<And>c. \<exists>calls. outcome_state (f c) = c\<lparr>registry := calls\<rparr>"
    and "\<exists>calls. outcome_state r = (c :: client)\<lparr>registry := calls\<rparr>"
  shows "\<exists>calls. outcome_state (and_then r f) = c\<lparr>registry := calls\<rparr>"
proof (cases r)
  case (Returns c1)
  with assms(2) obtain calls where "c1 = c\<lparr>registry := calls\<rparr>"
    by auto
  with assms(1) [of c1] Returns show ?thesis
    by auto
next
  case (Raises e c1)
  with assms(2) show ?thesis
    by simp
qed

lemma merge_rows_registry_only:
  "\<exists>calls. outcome_state (merge_rows E rows c) = c\<lparr>registry := calls\<rparr>"
proof (induction rows arbitrary: c)
  case Nil
  have "c = c\<lparr>registry := registry c\<rparr>"
    by simp
  then show ?case
    by (metis merge_rows.simps(1) outcome_state.simps(1))
next
  case (Cons payload rows)
  have self: "\<exists>calls. c = c\<lparr>registry := calls\<rparr>"
    by (rule exI [of _ "registry c"]) simp
  show ?case
  proof (cases "getitem_str payload (ascii ''uid'')")
    case (Inl e)
    with self show ?thesis by simp
  next
    case uid: (Inr user_id)
    show ?thesis
    proof (cases "getitem_str payload (ascii ''lv'')")
      case (Inl e)
      with uid self show ?thesis by simp
    next
      case (Inr lv)
      with uid show ?thesis
        by (simp add: registry_only_trans [OF Cons.IH get_and_merge_registry_only])
    qed
  qed
qed

lemma merge_tag_rows_registry_only:
  "\<exists>calls. outcome_state (merge_tag_rows E items c) = c\<lparr>registry := calls\<rparr>"
proof (induction items arbitrary: c)
  case Nil
  show ?case
    by (rule exI [of _ "registry c"]) simp
next
  case (Cons kv items)
  obtain key v where "kv = (key, v)"
    by (cases kv)
  then show ?case
    by (simp add: registry_only_trans [OF Cons.IH get_and_merge_registry_only])
qed


lemma emit_no_packet_fired:
  "kind \<noteq> FCTYPE_CLIENT_MODELSLOADED \<Longrightarrow>
   models_fired (outcome_state (emit E kind None c)) = models_fired c"
  "models_fired (outcome_state (emit E FCTYPE_CLIENT_MODELSLOADED None c)) = Suc (models_fired c)"
  "completed_models (outcome_state (emit E kind None c)) = completed_models c"
  by (simp_all add: emit_no_packet models_fired_def)

text \<open>Once the flag is set, a bulk list emits the event no more and leaves the flag set.\<close>

lemma managelist_after_fired:
  assumes "completed_models c"
  shows "completed_models (outcome_state (process_managelist E p c))
     \<and> models_fired (outcome_state (process_managelist E p c)) = models_fired c"
proof -
  have rows: "completed_models (outcome_state
        (and_then (merge_rows E rs c)
           (\<lambda>c1. if nt = FCL_CAMS E \<and> \<not> completed_models c1
                 then emit E FCTYPE_CLIENT_MODELSLOADED None (c1\<lparr>completed_models := True\<rparr>)
                 else Returns c1)))
      \<and> models_fired (outcome_state
        (and_then (merge_rows E rs c)
           (\<lambda>c1. if nt = FCL_CAMS E \<and> \<not> completed_models c1
                 then emit E FCTYPE_CLIENT_MODELSLOADED None (c1\<lparr>completed_models := True\<rparr>)
                 else Returns c1))) = models_fired c" for rs nt
  proof -
    obtain calls where o: "outcome_state (merge_rows E rs c) = c\<lparr>registry := calls\<rparr>"
      using merge_rows_registry_only by blast
    show ?thesis
      using o assms by (cases "merge_rows E rs c") (auto simp: models_fired_def)
  qed
  have tags: "completed_models (outcome_state
        (and_then (merge_tag_rows E items c)
           (\<lambda>c1. if \<not> completed_tags c1
                 then emit E FCTYPE_CLIENT_TAGSLOADED None (c1\<lparr>completed_tags := True\<rparr>)
                 else Returns c1)))
      \<and> models_fired (outcome_state
        (and_then (merge_tag_rows E items c)
           (\<lambda>c1. if \<not> completed_tags c1
                 then emit E FCTYPE_CLIENT_TAGSLOADED None (c1\<lparr>completed_tags := True\<rparr>)
                 else Returns c1))) = models_fired c" for items
  proof -
    obtain calls where o: "outcome_state (merge_tag_rows E items c) = c\<lparr>registry := calls\<rparr>"
      using merge_tag_rows_registry_only by blast
    have ne: "FCTYPE_CLIENT_TAGSLOADED \<noteq> FCTYPE_CLIENT_MODELSLOADED"
      by (simp add: FCTYPE_CLIENT_TAGSLOADED_def FCTYPE_CLIENT_MODELSLOADED_def)
    show ?thesis
      using o assms
      by (cases "merge_tag_rows E items c")
         (auto simp: emit_no_packet_fired(1) [OF ne] emit_no_packet_fired(3), auto simp: models_fired_def)
  qed
  show ?thesis
    unfolding process_managelist_def Let_def
    using assms
    by (simp add: rows tags split: sum.splits bool.splits jvalue.splits)
qed


text \<open>
  Before the flag is set, a list of the cams whose rows all merge emits the event once
  and sets the flag.
\<close>

lemma cams_list_fires:
  assumes "\<not> completed_models c" and "0 < narg2 p" and "narg2 p = FCL_CAMS E"
    and "str_in (ascii ''rdata'') (smessage p) = Inr True"
    and "getitem_str (smessage p) (ascii ''rdata'') = Inr data"
    and "process_list data = Inr (JList rows)"
    and "merge_rows E rows c = Returns c1"
  shows "completed_models (outcome_state (process_managelist E p c))
     \<and> models_fired (outcome_state (process_managelist E p c)) = Suc (models_fired c)"
proof -
  obtain calls where "outcome_state (merge_rows E rows c) = c\<lparr>registry := calls\<rparr>"
    using merge_rows_registry_only by blast
  with assms(7) have c1: "c1 = c\<lparr>registry := calls\<rparr>"
    by simp
  have "process_managelist E p c =
      emit E FCTYPE_CLIENT_MODELSLOADED None (c1\<lparr>completed_models := True\<rparr>)"
    unfolding process_managelist_def Let_def
    using assms c1 by simp
  then show ?thesis
    by (simp add: emit_no_packet_fired c1) (simp add: models_fired_def)
qed

text \<open>
  A disconnect resets both flags, unless the test of the guest name raises before.
\<close>

lemma disconnect_resets_flags:
  assumes "password c \<noteq> ascii ''guest'' \<or> (\<exists>name. username c = JStr name)"
  shows "\<not> completed_models (outcome_state (handle_disconnected E c))
     \<and> \<not> completed_tags (outcome_state (handle_disconnected E c))"
proof -
  have reg: "outcome_state (case call_registry E ResetAll c6 of
                         (Inl e, c7) \<Rightarrow> Raises e c7
                       | (Inr _, c7) \<Rightarrow> Returns c7) = c6\<lparr>registry := registry c6 @ [ResetAll]\<rparr>" for c6
    by (simp add: call_registry_def split: sum.splits)
  have tail: "completed_models (outcome_state
        (and_then (emit E FCTYPE_CLIENT_DISCONNECTED None c5)
                (\<lambda>c6. case call_registry E ResetAll c6 of
                         (Inl e, c7) \<Rightarrow> Raises e c7
                       | (Inr _, c7) \<Rightarrow> Returns c7))) = completed_models c5
      \<and> completed_tags (outcome_state
        (and_then (emit E FCTYPE_CLIENT_DISCONNECTED None c5)
                (\<lambda>c6. case call_registry E ResetAll c6 of
                         (Inl e, c7) \<Rightarrow> Raises e c7
                       | (Inr _, c7) \<Rightarrow> Returns c7))) = completed_tags c5" for c5
  proof (cases "emit E FCTYPE_CLIENT_DISCONNECTED None c5")
    case (Returns c6)
    with emit_no_packet [of E FCTYPE_CLIENT_DISCONNECTED c5] show ?thesis
      by (simp add: reg)
  next
    case (Raises e c6)
    with emit_no_packet [of E FCTYPE_CLIENT_DISCONNECTED c5] show ?thesis
      by simp
  qed
  show ?thesis
  proof (cases "password c = ascii ''guest''")
    case False
    then show ?thesis
      unfolding handle_disconnected_def Let_def
      by (simp add: tail)
  next
    case True
    with assms obtain name where "username c = JStr name"
      by blast
    with True show ?thesis
      unfolding handle_disconnected_def Let_def
      by (simp add: tail)
  qed
qed

lemma after_bare_login_eq:
  "after_bare_login =
     guest_client\<lparr>session_id := 4242, uid := Some 555, username := JNone,
       emitted := [(1, Some bare_login), (- 2, Some bare_login)]\<rparr>"
proof -
  have k: "fctype bare_login = FCTYPE_LOGIN sample_env"
    by (simp add: sample_fields bare_login_def)
  have pl: "process_login bare_login guest_client =
      Returns (guest_client\<lparr>session_id := 4242, uid := Some 555, username := JNone\<rparr>)"
    by (simp add: process_login_def bare_login_def)
  show ?thesis
    unfolding after_bare_login_def handle_packet_received_def process_packet_login [OF k] pl
    by (simp add: with_packet_def emit_no_listeners guest_fields FCTYPE_ANY_def)
       (simp add: bare_login_def)
qed

lemma after_cams_list_eq:
  "after_cams_list =
     after_bare_login\<lparr>completed_models := True,
       emitted := [(1, Some bare_login), (- 2, Some bare_login), (- 4, None),
                   (14, Some cams_list), (- 2, Some cams_list)]\<rparr>"
proof -
  have l: "listeners after_bare_login = []" and e: "emitted after_bare_login =
      [(1, Some bare_login), (- 2, Some bare_login)]"
    and m: "\<not> completed_models after_bare_login"
    by (simp_all add: after_bare_login_eq guest_fields)
  have pm: "process_managelist sample_env cams_list after_bare_login =
      Returns (after_bare_login\<lparr>completed_models := True,
        emitted := [(1, Some bare_login), (- 2, Some bare_login), (- 4, None)]\<rparr>)"
    unfolding process_managelist_def Let_def
    by (simp add: cams_list_def sample_fields emit_no_listeners l e m
          FCTYPE_CLIENT_MODELSLOADED_def)
  have pp: "process_packet sample_env cams_list after_bare_login =
      with_packet cams_list (process_managelist sample_env cams_list after_bare_login)"
    by (simp add: process_packet_def sample_fields cams_list_def)
  show ?thesis
    unfolding after_cams_list_def handle_packet_received_def pp pm
    by (simp add: with_packet_def emit_no_listeners l FCTYPE_ANY_def)
       (simp add: cams_list_def)
qed

text \<open>
  C9: the event "bulk models loaded" is emitted on the first list of the cams of a
  connection only, and a disconnect resets the flag, and the flag of the tags, so that
  the next connection can fire again. The lemmas above show the first part
  (\<open>cams_list_fires\<close>, \<open>managelist_after_fired\<close>) and the reset whenever
  \<^verbatim>\<open>handle_disconnected\<close> gets past its test of the guest name
  (\<open>disconnect_resets_flags\<close>). That test calls \<^verbatim>\<open>startswith\<close> on the username, which is
  whatever payload the login response carried. Here a guest receives a login response
  without payload and then the list of the cams: the event has fired once, the
  disconnect raises \<^verbatim>\<open>AttributeError\<close> before the lines that reset the flags, the flag
  stays set, and no reconnect is set up.
\<close>

theorem C9_disconnect_raises_before_reset:
  "username after_cams_list = JNone \<and> password after_cams_list = ascii ''guest''
   \<and> completed_models after_cams_list \<and> models_fired after_cams_list = 1
   \<and> handle_disconnected sample_env after_cams_list
       = Raises AttributeError (after_cams_list\<lparr>keepalive := False\<rparr>)
   \<and> completed_models (outcome_state (handle_disconnected sample_env after_cams_list))
   \<and> timers (outcome_state (handle_disconnected sample_env after_cams_list)) = []"
proof -
  have f: "username after_cams_list = JNone" "password after_cams_list = ascii ''guest''"
    "completed_models after_cams_list" "timers after_cams_list = []"
    by (simp_all add: after_cams_list_eq after_bare_login_eq guest_fields)
  have fired: "models_fired after_cams_list = 1"
    by (simp add: models_fired_def after_cams_list_eq FCTYPE_CLIENT_MODELSLOADED_def)
  have "handle_disconnected sample_env after_cams_list
       = Raises AttributeError (after_cams_list\<lparr>keepalive := False\<rparr>)"
    by (simp add: handle_disconnected_def Let_def f)
  with f fired show ?thesis
    by simp
qed


section \<open>A cut payload on the way through the client\<close>

lemma is_substr_rdata: "is_substr (ascii ''rdata'') cut_text"
proof -
  have "take (length (ascii ''rdata'')) (drop 2 cut_text) = ascii ''rdata''"
    by (simp add: ascii_def cut_text_def)
  moreover have "2 \<in> set [0..<Suc (length cut_text)]"
    by (simp add: cut_text_def)
  ultimately show ?thesis
    unfolding is_substr_def list_ex_iff by blast
qed

text \<open>
  On a list whose payload is the text \<open>{"rdata":[\<close>, the test \<^verbatim>\<open>"rdata" in packet.smessage\<close>
  is a substring test and holds, and \<^verbatim>\<open>packet.smessage["rdata"]\<close> subscripts a \<^verbatim>\<open>str\<close> with a
  \<^verbatim>\<open>str\<close>.
\<close>

lemma cut_list_raises:
  "handle_packet_received sample_env c cut_list = Raises TypeError c"
proof -
  have "process_managelist sample_env cut_list c = Raises TypeError c"
    by (simp add: process_managelist_def cut_list_def is_substr_rdata)
  then have "process_packet sample_env cut_list c = Raises TypeError (c, cut_list)"
    by (simp add: process_packet_def sample_fields with_packet_def) (simp add: cut_list_def)
  then show ?thesis
    by (simp add: handle_packet_received_def)
qed

lemma cut_frames_decoded:
  "decode_frame (json_loads sample_env) (frame_bytes cut_list_frame @ rest) = Frame cut_list rest"
  "decode_frame (json_loads sample_env) (frame_bytes cut_tags_frame @ rest) = Frame cut_tags rest"
proof -
  have u: "utf8_decode [123, 34, 114, 100, 97, 116, 97, 34, 58, 91]
      = Some [123, 34, 114, 100, 97, 116, 97, 34, 58, 91]"
    by simp
  have l: "sample_loads [123, 34, 114, 100, 97, 116, 97, 34, 58, 91] = Inl JSONDecodeError"
    by (simp add: sample_loads_def decimal_def)
  have f1: "frame_fits cut_list_frame"
    by (simp add: frame_fits_def is_i32_def cut_list_frame_def)
  have f2: "frame_fits cut_tags_frame"
    by (simp add: frame_fits_def is_i32_def cut_tags_frame_def)
  show "decode_frame (json_loads sample_env) (frame_bytes cut_list_frame @ rest) = Frame cut_list rest"
    unfolding decode_frame_bytes [OF f1]
    by (simp add: cut_list_frame_def u l sample_fields cut_list_def cut_text_def)
  show "decode_frame (json_loads sample_env) (frame_bytes cut_tags_frame @ rest) = Frame cut_tags rest"
    unfolding decode_frame_bytes [OF f2]
    by (simp add: cut_tags_frame_def u l sample_fields cut_tags_def cut_text_def)
qed

text \<open>
  The sibling path: the same text as the payload of a message of tags. The branch of
  \<^verbatim>\<open>TAGS\<close> tests \<^verbatim>\<open>isinstance(packet.smessage, dict)\<close>, so the text is ignored, the packet
  is emitted and the loop goes on.
\<close>

lemma cut_tags_are_ignored:
  "client_data_received sample_env guest_client [] (frame_bytes cut_tags_frame) =
     Some (guest_client\<lparr>emitted := [(64, Some cut_tags), (- 2, Some cut_tags)]\<rparr>, [])"
proof -
  have "process_packet sample_env cut_tags guest_client = Returns (guest_client, cut_tags)"
    by (simp add: process_packet_def sample_fields with_packet_def process_tags_def)
       (simp add: cut_tags_def)
  then have "handle_packet_received sample_env guest_client cut_tags =
      Returns (guest_client\<lparr>emitted := [(64, Some cut_tags), (- 2, Some cut_tags)]\<rparr>)"
    by (simp add: handle_packet_received_def emit_no_listeners guest_fields FCTYPE_ANY_def)
       (simp add: cut_tags_def)
  with loop_frame [OF cut_frames_decoded(2) [of "[]", simplified],
      of "handle_packet_received sample_env" guest_client]
  show ?thesis
    by (simp add: client_data_received_def data_received_def loop_incomplete)
qed

text \<open>
  C7: a frame whose payload is text but no JSON is kept as text and the session goes on.
  The code does not do this for a list of the cams whose payload \<open>{"rdata":[\<close> is cut
  short: the decoder keeps the text as the payload of the packet, the client raises
  \<^verbatim>\<open>TypeError\<close> on it, and the decoder stops the event loop; a chat message that
  follows in the same chunk stays in the buffer and is never delivered.
\<close>

theorem C7_cut_list_stops_the_session:
  "decode_frame (json_loads sample_env) (frame_bytes cut_list_frame) = Frame cut_list []
   \<and> smessage cut_list = JStr cut_text
   \<and> handle_packet_received sample_env guest_client cut_list = Raises TypeError guest_client
   \<and> client_data_received sample_env guest_client [] (frame_bytes cut_list_frame)
       = Some (guest_client\<lparr>loop_stopped := True\<rparr>, [])
   \<and> client_data_received sample_env guest_client []
         (frame_bytes cut_list_frame @ frame_bytes chat_frame)
       = Some (guest_client\<lparr>loop_stopped := True\<rparr>, frame_bytes chat_frame)"
proof -
  have d: "decode_frame (json_loads sample_env) (frame_bytes cut_list_frame) = Frame cut_list []"
    using cut_frames_decoded(1) [of "[]"] by simp
  have 1: "client_data_received sample_env guest_client [] (frame_bytes cut_list_frame)
       = Some (guest_client\<lparr>loop_stopped := True\<rparr>, [])"
    using loop_frame [OF d, of "handle_packet_received sample_env" guest_client]
    by (simp add: client_data_received_def data_received_def cut_list_raises)
  have 2: "client_data_received sample_env guest_client []
         (frame_bytes cut_list_frame @ frame_bytes chat_frame)
       = Some (guest_client\<lparr>loop_stopped := True\<rparr>, frame_bytes chat_frame)"
    using loop_frame [OF cut_frames_decoded(1) [of "frame_bytes chat_frame"],
        of "handle_packet_received sample_env" guest_client]
    by (simp add: client_data_received_def data_received_def cut_list_raises)
  show ?thesis
    using d 1 2 by (simp add: cut_list_raises) (simp add: cut_list_def)
qed

end
